theory Spec2Isabelle
  imports Complex_Main "HOL-Library.Sublist" "HOL-Library.Char_ord" "HOL-Library.List_Lexorder"
begin

section \<open>Python and pandas primitives used by the three scripts\<close>

text \<open>
  The repository holds three independent batch scripts: \<^verbatim>\<open>code/filterR.py\<close> (the Column
  Dropper), \<^verbatim>\<open>code/filterVAR.py\<close> (the Feature Subsetter) and \<^verbatim>\<open>data_prep.py\<close> (the
  Transaction Flattener). Each is embedded below as pure functions over an explicit file
  store; an exception is a value of type \<open>error\<close>, and what a script prints is collected in
  the lists \<open>stdout\<close> and \<open>stderr\<close> of its run.
\<close>

datatype error =
    FileNotFoundError string
  | KeyError string
  | ValueError string
  | IndexError string
  | AttributeError string
  | TypeError string
  | StopIteration
  | EmptyDataError string
  | ParserError string
  | IsADirectoryError string
  | PermissionError string

text \<open>\<^verbatim>\<open>s.endswith(suffix)\<close>: \<open>s\<close> ends with the characters of \<open>suffix\<close>.\<close>

definition endswith :: "string \<Rightarrow> string \<Rightarrow> bool" where
  "endswith s suf = (length suf \<le> length s \<and> drop (length s - length suf) s = suf)"

text \<open>\<^verbatim>\<open>sep.join(xs)\<close>.\<close>

fun join :: "string \<Rightarrow> string list \<Rightarrow> string" where
  "join sep [] = []"
| "join sep [x] = x"
| "join sep (x # y # ys) = x @ sep @ join sep (y # ys)"

text \<open>The decimal digits that an f-string prints for a non-negative integer.\<close>

definition digit_char :: "nat \<Rightarrow> char" where
  "digit_char d = ''0123456789'' ! d"

fun str_nat :: "nat \<Rightarrow> string" where
  "str_nat n = (if n < 10 then [digit_char n] else str_nat (n div 10) @ [digit_char (n mod 10)])"

declare str_nat.simps [simp del]

text \<open>\<^verbatim>\<open>Path.name\<close>: the final component of a path.\<close>

definition path_name :: "string \<Rightarrow> string" where
  "path_name p = rev (takeWhile (\<lambda>c. c \<noteq> CHR ''/'') (rev p))"

subsection \<open>Data frames and the file store\<close>

text \<open>
  A pandas \<^verbatim>\<open>DataFrame\<close> is kept row by row: the column labels in order, and the rows in
  order, each row holding one cell per column. The cell type \<open>'a\<close> is whatever pandas
  parsed, and is never inspected by the two CSV scripts.
\<close>

record 'a frame =
  columns :: "string list"
  rows :: "'a list list"

text \<open>Every frame that pandas builds is rectangular.\<close>

definition wf_frame :: "'a frame \<Rightarrow> bool" where
  "wf_frame f = list_all (\<lambda>r. length r = length (columns f)) (rows f)"

text \<open>
  What stands at a path that exists is seen through \<^verbatim>\<open>pd.read_csv\<close>: either the dataset
  that pandas parses from the file (header line and data lines), or the exception that
  \<^verbatim>\<open>pd.read_csv\<close> raises when it opens the path: \<^verbatim>\<open>EmptyDataError\<close> for a file without a
  header line, \<^verbatim>\<open>IsADirectoryError\<close> for a directory, \<^verbatim>\<open>PermissionError\<close>,
  \<^verbatim>\<open>ParserError\<close>. \<^verbatim>\<open>Path.exists\<close> is true in both cases. The parsing and the
  formatting of the text of a file belong to pandas and are not modelled further; a file
  whose first lines parse and a later line does not is not modelled, and neither is a
  failure to write.
\<close>

datatype 'a content = Dataset "'a frame" | Unreadable error

text \<open>
  Paths are written relative to \<^verbatim>\<open>PROJECT_ROOT\<close>, the parent of the directory that holds
  the script. The file store maps a path to what stands there, when the path exists.
\<close>

type_synonym path = string

type_synonym 'a files = "path \<Rightarrow> 'a content option"

text \<open>
  A script ends by returning an exit status from \<^verbatim>\<open>main\<close> (\<^verbatim>\<open>raise SystemExit(main())\<close>)
  or by an exception that nothing catches; the interpreter then prints the traceback and
  exits with status 1.
\<close>

datatype outcome = Exit int | Uncaught error


record 'a run =
  status :: outcome
  stdout :: "string list"
  stderr :: "string list"
  files :: "'a files"

text \<open>The cells of a row whose column label satisfies \<open>P\<close>, in order.\<close>

definition select_cells :: "(string \<Rightarrow> bool) \<Rightarrow> string list \<Rightarrow> 'a list \<Rightarrow> 'a list" where
  "select_cells P cols r = map snd (filter (\<lambda>(c, v). P c) (zip cols r))"

text \<open>\<^verbatim>\<open>frame.drop(columns=labels, errors="ignore")\<close>: every column whose label is listed
  goes; a listed label that the frame does not have is passed over.\<close>

definition drop_columns :: "string list \<Rightarrow> 'a frame \<Rightarrow> 'a frame" where
  "drop_columns labels f =
     \<lparr>columns = [c \<leftarrow> columns f. c \<notin> set labels],
      rows = map (select_cells (\<lambda>c. c \<notin> set labels) (columns f)) (rows f)\<rparr>"

text \<open>
  \<^verbatim>\<open>pd.read_csv(path, chunksize=n)\<close> raises when the path cannot be read; otherwise it
  yields the rows of the dataset in blocks of \<open>n\<close>, the last one shorter; a file with a
  header and no data line yields one empty block. pandas rejects \<open>n = 0\<close>, which the
  scripts never pass; the equation below then gives a single block.
\<close>

fun chunked :: "nat \<Rightarrow> 'a list \<Rightarrow> 'a list list" where
  "chunked n xs =
     (if n = 0 \<or> length xs \<le> n then [xs] else take n xs # chunked n (drop n xs))"

declare chunked.simps [simp del]

definition frame_chunks :: "nat \<Rightarrow> 'a frame \<Rightarrow> 'a frame list" where
  "frame_chunks n f = map (\<lambda>rs. \<lparr>columns = columns f, rows = rs\<rparr>) (chunked n (rows f))"

definition read_csv_chunks :: "nat \<Rightarrow> 'a content \<Rightarrow> error + 'a frame list" where
  "read_csv_chunks n c =
     (case c of
        Unreadable e \<Rightarrow> Inl e
      | Dataset f \<Rightarrow> Inr (frame_chunks n f))"

text \<open>
  \<^verbatim>\<open>frame.to_csv(path, mode="w" if is_first else "a", header=is_first, index=False)\<close>:
  the first call replaces the file by the header and the rows of the frame, a later call
  appends the rows only. (Appending to a file that does not exist creates it without a
  header line, and appending to a file that cannot be read leaves it so; the scripts never
  do either.)
\<close>

definition to_csv :: "path \<Rightarrow> bool \<Rightarrow> 'a frame \<Rightarrow> 'a files \<Rightarrow> 'a files" where
  "to_csv p is_first f fs =
     (if is_first then fs(p \<mapsto> Dataset \<lparr>columns = columns f, rows = rows f\<rparr>)
      else (case fs p of
              None \<Rightarrow> fs(p \<mapsto> Dataset \<lparr>columns = [], rows = rows f\<rparr>)
            | Some (Unreadable e) \<Rightarrow> fs
            | Some (Dataset old) \<Rightarrow>
                fs(p \<mapsto> Dataset \<lparr>columns = columns old, rows = rows old @ rows f\<rparr>)))"

section \<open>The Column Dropper (code/filterR.py)\<close>

definition filterR_SOURCE_FILE :: path where
  "filterR_SOURCE_FILE = ''Data/Q1_Q260_filtered_30%row_and_column.csv''"

definition filterR_OUTPUT_FILE :: path where
  "filterR_OUTPUT_FILE = ''Data/Q1_Q260_filtered_30%row_and_column_no_R.csv''"

definition CHUNK_SIZE :: nat where
  "CHUNK_SIZE = 50000"

text \<open>\<^verbatim>\<open>_columns_to_drop(columns, suffix)\<close>.\<close>

definition columns_to_drop :: "string list \<Rightarrow> string \<Rightarrow> string list" where
  "columns_to_drop cols suf = [column \<leftarrow> cols. endswith column suf]"

text \<open>
  The loop of \<^verbatim>\<open>_write_filtered_csv\<close> over the blocks of the source, with its flag
  \<^verbatim>\<open>is_first_chunk\<close>.
\<close>

fun write_chunks :: "string list \<Rightarrow> bool \<Rightarrow> 'a frame list \<Rightarrow> 'a files \<Rightarrow> 'a files" where
  "write_chunks to_drop is_first_chunk [] fs = fs"
| "write_chunks to_drop is_first_chunk (chunk # rest) fs =
     write_chunks to_drop False rest
       (to_csv filterR_OUTPUT_FILE is_first_chunk (drop_columns to_drop chunk) fs)"

text \<open>
  \<^verbatim>\<open>_write_filtered_csv(columns_to_drop)\<close>. The block size is the module constant
  \<^verbatim>\<open>CHUNK_SIZE\<close>; it is a parameter here, so that the blocks can be followed on small
  inputs. The source is read while the output is written; the two paths differ, so the
  blocks are those of the source as it was at the start.
\<close>

definition write_filtered_csv :: "nat \<Rightarrow> string list \<Rightarrow> 'a files \<Rightarrow> error + 'a files" where
  "write_filtered_csv n to_drop fs =
     (case fs filterR_SOURCE_FILE of
        None \<Rightarrow> Inl (FileNotFoundError filterR_SOURCE_FILE)
      | Some source \<Rightarrow>
          (case read_csv_chunks n source of
             Inl e \<Rightarrow> Inl e
           | Inr chunks \<Rightarrow> Inr (write_chunks to_drop True chunks fs)))"

definition filterR_missing_msg :: string where
  "filterR_missing_msg =
     ''Source file not found. Expected input at '' @ filterR_SOURCE_FILE @ [CHR 0x0A]
     @ ''Update Code/filter.py if the dataset has moved.''"

definition filterR_main :: "nat \<Rightarrow> 'a files \<Rightarrow> 'a run" where
  "filterR_main n fs =
     (case fs filterR_SOURCE_FILE of
        None \<Rightarrow> \<lparr>status = Exit 1, stdout = [], stderr = [filterR_missing_msg], files = fs\<rparr>
      | Some source \<Rightarrow>
          (let out1 = [''Loading column headers from '' @ path_name filterR_SOURCE_FILE @ ''...'']
           in case read_csv_chunks n source of
                Inl e \<Rightarrow> \<lparr>status = Uncaught e, stdout = out1, stderr = [], files = fs\<rparr>
              | Inr [] \<Rightarrow>
                  \<lparr>status = Uncaught StopIteration, stdout = out1, stderr = [], files = fs\<rparr>
              | Inr (first_chunk # _) \<Rightarrow>
                  (let to_drop = columns_to_drop (columns first_chunk) ''R''
                   in if to_drop = []
                      then \<lparr>status = Exit 0,
                            stdout = out1 @ [''No columns ending with 'R' found; nothing to filter.''],
                            stderr = [], files = fs\<rparr>
                      else
                        (let out2 = out1 @
                               [''Dropping columns (sample): '' @ join '', '' (take 5 to_drop)
                                @ (if length to_drop > 5 then ''...'' else [])]
                         in case write_filtered_csv n to_drop fs of
                              Inl e \<Rightarrow> \<lparr>status = Uncaught e, stdout = out2, stderr = [], files = fs\<rparr>
                            | Inr fs' \<Rightarrow>
                                \<lparr>status = Exit 0,
                                 stdout = out2 @
                                   [''Filtered dataset written to '' @ path_name filterR_OUTPUT_FILE
                                    @ '' with '' @ str_nat (length to_drop) @ '' columns removed.''],
                                 stderr = [], files = fs'\<rparr>))))"

text \<open>
  The view in which the properties of a dataset are stated: the named columns in order,
  each with its values from the first row to the last.
\<close>

fun to_columns :: "string list \<Rightarrow> 'a list list \<Rightarrow> (string \<times> 'a list) list" where
  "to_columns [] rs = []"
| "to_columns (c # cs) rs = (c, map hd rs) # to_columns cs (map tl rs)"

definition frame_columns :: "'a frame \<Rightarrow> (string \<times> 'a list) list" where
  "frame_columns f = to_columns (columns f) (rows f)"

section \<open>The Feature Subsetter (code/filterVAR.py)\<close>

subsection \<open>What Python prints for an exception\<close>

text \<open>
  \<^verbatim>\<open>repr\<close> of a string: the string between single quotes, or between double quotes when
  it holds a single quote and no double quote; the quote in use and the backslash are
  escaped by a backslash, tab, newline and carriage return are written \<^verbatim>\<open>\t\<close>, \<^verbatim>\<open>\n\<close>,
  \<^verbatim>\<open>\r\<close>, and any other control character \<^verbatim>\<open>\xNN\<close>. (A \<open>char\<close> is a byte; the bytes of a
  character beyond ASCII are taken as printable.)
\<close>

definition hex_digit :: "nat \<Rightarrow> char" where
  "hex_digit d = ''0123456789abcdef'' ! d"

definition repr_char :: "char \<Rightarrow> char \<Rightarrow> string" where
  "repr_char q c =
     (if c = q \<or> c = CHR 0x5C then [CHR 0x5C, c]
      else if c = CHR 0x09 then [CHR 0x5C, CHR ''t'']
      else if c = CHR 0x0A then [CHR 0x5C, CHR ''n'']
      else if c = CHR 0x0D then [CHR 0x5C, CHR ''r'']
      else if (of_char c :: nat) < 32 \<or> (of_char c :: nat) = 127
        then [CHR 0x5C, CHR ''x'', hex_digit ((of_char c :: nat) div 16),
              hex_digit ((of_char c :: nat) mod 16)]
      else [c])"

definition py_repr :: "string \<Rightarrow> string" where
  "py_repr s =
     (let q = (if CHR 0x27 \<in> set s \<and> CHR 0x22 \<notin> set s then CHR 0x22 else CHR 0x27)
      in [q] @ concat (map (repr_char q) s) @ [q])"

text \<open>\<^verbatim>\<open>repr\<close> of a list of strings.\<close>

definition py_list_repr :: "string list \<Rightarrow> string" where
  "py_list_repr xs = ''['' @ join '', '' (map py_repr xs) @ '']''"

text \<open>
  \<^verbatim>\<open>str(exc)\<close>, which is what \<^verbatim>\<open>f"{exc}"\<close> prints: the message of the exception, except
  for a \<^verbatim>\<open>KeyError\<close>, which prints the \<^verbatim>\<open>repr\<close> of its message.
\<close>

fun str_exc :: "error \<Rightarrow> string" where
  "str_exc (KeyError m) = py_repr m"
| "str_exc (FileNotFoundError m) = m"
| "str_exc (ValueError m) = m"
| "str_exc (IndexError m) = m"
| "str_exc (AttributeError m) = m"
| "str_exc (TypeError m) = m"
| "str_exc StopIteration = []"
| "str_exc (EmptyDataError m) = m"
| "str_exc (ParserError m) = m"
| "str_exc (IsADirectoryError m) = m"
| "str_exc (PermissionError m) = m"

subsection \<open>pandas operations\<close>

text \<open>\<^verbatim>\<open>pd.read_csv(source, usecols=P)\<close> with a callable \<open>P\<close>, on a source that pandas
  can read: the columns whose label satisfies \<open>P\<close>, in the order of the file.\<close>

definition read_csv_usecols :: "(string \<Rightarrow> bool) \<Rightarrow> 'a frame \<Rightarrow> 'a frame" where
  "read_csv_usecols P f =
     \<lparr>columns = filter P (columns f), rows = map (select_cells P (columns f)) (rows f)\<rparr>"

text \<open>\<^verbatim>\<open>frame.rename(columns=rename_map)\<close>: a label that is a key of the dictionary is
  replaced by its value, any other label stays.\<close>

definition rename_label :: "(string \<Rightarrow> string option) \<Rightarrow> string \<Rightarrow> string" where
  "rename_label mapper c = (case mapper c of None \<Rightarrow> c | Some t \<Rightarrow> t)"

definition rename_columns :: "(string \<Rightarrow> string option) \<Rightarrow> 'a frame \<Rightarrow> 'a frame" where
  "rename_columns mapper f = \<lparr>columns = map (rename_label mapper) (columns f), rows = rows f\<rparr>"

text \<open>
  \<^verbatim>\<open>frame[labels]\<close> with a list of labels: for each label in turn, every column that
  carries it; a label that no column carries raises \<^verbatim>\<open>KeyError\<close> (the message is that of
  pandas 2 when some of the labels are found).
\<close>

definition getitem_columns :: "string list \<Rightarrow> 'a frame \<Rightarrow> error + 'a frame" where
  "getitem_columns labels f =
     (let not_found = remdups [l \<leftarrow> labels. l \<notin> set (columns f)]
      in if not_found \<noteq> [] then Inl (KeyError (py_list_repr not_found @ '' not in index''))
         else Inr \<lparr>columns = concat (map (\<lambda>l. [c \<leftarrow> columns f. c = l]) labels),
                   rows = map (\<lambda>r. concat (map (\<lambda>l. select_cells (\<lambda>c. c = l) (columns f) r) labels))
                            (rows f)\<rparr>)"

subsection \<open>The script\<close>

definition DEFAULT_SOURCE :: path where
  "DEFAULT_SOURCE = ''data/Q1_Q260_filtered_30%row_and_column_no_R.csv''"

definition FALLBACK_SOURCE :: path where
  "FALLBACK_SOURCE = ''data/Q1_Q260_filtered_30%row_and_column.csv''"

definition filterVAR_OUTPUT_FILE :: path where
  "filterVAR_OUTPUT_FILE = ''data/lifesat_sdt_subset.csv''"

definition TARGET_COLUMN :: string where
  "TARGET_COLUMN = ''Q49''"

definition TARGET_RENAMED :: string where
  "TARGET_RENAMED = ''LifeSat''"

text \<open>
  \<^verbatim>\<open>COLUMN_GROUPS\<close> is a dictionary of dictionaries, and Python keeps the order in which
  the entries are written: each dictionary is the list of its items.
\<close>

type_synonym column_groups = "(string \<times> (string \<times> string) list) list"

definition COLUMN_GROUPS :: column_groups where
  "COLUMN_GROUPS =
     [(''com'',
        [(''Q47'', ''SHealth''),
         (''Q50'', ''FinSat''),
         (''Q56'', ''FinSat_ComParent''),
         (''Q142'', ''RiskUnemployed''),
         (''Q143'', ''EducationNextGen'')]),
      (''aut'',
        [(''Q48'', ''FreeChoice''),
         (''Q131'', ''Security''),
         (''Q146'', ''PublicSecurity_War''),
         (''Q147'', ''PublicSecurity_Terrorism''),
         (''Q148'', ''PublicSecurity_CivilWar''),
         (''Q251'', ''Democracy''),
         (''Q253'', ''HumanRights'')]),
      (''rel'',
        [(''Q57'', ''Trust''),
         (''Q58'', ''Trust_Family''),
         (''Q59'', ''Trust_Neighbors''),
         (''Q60'', ''Trust_Acquaintances''),
         (''Q61'', ''Trust_Strangers''),
         (''Q62'', ''Trust_OtherReligion''),
         (''Q63'', ''Trust_OtherNationality''),
         (''Q94'', ''Membership_Religious''),
         (''Q95'', ''Membership_Sport''),
         (''Q96'', ''Membership_Art''),
         (''Q97'', ''Membership_LaborUnion''),
         (''Q98'', ''Membership_Political''),
         (''Q99'', ''Membership_Environmental''),
         (''Q100'', ''Membership_Professional''),
         (''Q101'', ''Membership_Charity''),
         (''Q102'', ''Membership_Consumer''),
         (''Q103'', ''Membership_SelfHelp''),
         (''Q104'', ''Membership_Women''),
         (''Q105'', ''Membership_Other''),
         (''Q164'', ''GodImportance''),
         (''Q171'', ''ReligiousAttendance''),
         (''Q172'', ''Pray''),
         (''Q254'', ''NationalPride''),
         (''Q255'', ''CloseToTown''),
         (''Q256'', ''CloseToRegion''),
         (''Q257'', ''CloseToCountry''),
         (''Q258'', ''CloseToContinent''),
         (''Q259'', ''CloseToWorld'')])]"

text \<open>
  The functions of the script read the module constant \<^verbatim>\<open>COLUMN_GROUPS\<close>; here they take
  the table as their first argument, so that a property can speak of every configuration.
\<close>

definition select_source_file :: "'a files \<Rightarrow> error + path" where
  "select_source_file fs =
     (if fs DEFAULT_SOURCE \<noteq> None then Inr DEFAULT_SOURCE
      else if fs FALLBACK_SOURCE \<noteq> None then Inr FALLBACK_SOURCE
      else Inl (FileNotFoundError
             (''Neither filtered nor raw WVS CSV found. ''
              @ ''Looked for '' @ path_name DEFAULT_SOURCE @ '' and ''
              @ path_name FALLBACK_SOURCE @ ''.'')))"

definition column_pairs :: "column_groups \<Rightarrow> (string \<times> string) list" where
  "column_pairs groups = concat (map snd groups)"

definition ordered_columns :: "column_groups \<Rightarrow> string list" where
  "ordered_columns groups = TARGET_RENAMED # map snd (column_pairs groups)"

text \<open>
  \<^verbatim>\<open>_validate_columns\<close>. The set \<^verbatim>\<open>set(expected) - set(available)\<close> is kept as the list
  of its elements without repetition; \<^verbatim>\<open>sorted\<close> puts them in the order of Python's
  strings, which is the lexicographic order of their characters.
\<close>

definition validate_columns :: "string list \<Rightarrow> string list \<Rightarrow> error + unit" where
  "validate_columns expected available =
     (let missing = remdups [c \<leftarrow> expected. c \<notin> set available]
      in if missing \<noteq> []
         then (let formatted = join '', '' (sort missing)
               in Inl (KeyError
                    (''Missing columns in source CSV. Update the predictor lists or ''
                     @ ''regenerate the input. Missing: '' @ formatted)))
         else Inr ())"

text \<open>The list \<^verbatim>\<open>keep_columns\<close> of \<^verbatim>\<open>build_dataset\<close>.\<close>

definition keep_columns :: "column_groups \<Rightarrow> string list" where
  "keep_columns groups = TARGET_COLUMN # map fst (column_pairs groups)"

text \<open>
  The dictionary \<^verbatim>\<open>rename_map\<close> of \<^verbatim>\<open>build_dataset\<close>: the entry of the target, updated
  with the predictor pairs in order, a later pair replacing an earlier one with the same key.
\<close>

definition rename_map :: "column_groups \<Rightarrow> string \<Rightarrow> string option" where
  "rename_map groups = map_of (rev ((TARGET_COLUMN, TARGET_RENAMED) # column_pairs groups))"

definition build_dataset :: "column_groups \<Rightarrow> 'a files \<Rightarrow> error + 'a frame" where
  "build_dataset groups fs =
     (case select_source_file fs of
        Inl e \<Rightarrow> Inl e
      | Inr source \<Rightarrow>
          if length (keep_columns groups) = 1
          then Inl (ValueError ''Populate COLUMN_GROUPS before running the script.'')
          else (case fs source of
                  None \<Rightarrow> Inl (FileNotFoundError source)
                | Some (Unreadable e) \<Rightarrow> Inl e
                | Some (Dataset content) \<Rightarrow>
                    (let frame = read_csv_usecols (\<lambda>col. col \<in> set (keep_columns groups)) content
                     in case validate_columns (keep_columns groups) (columns frame) of
                          Inl e \<Rightarrow> Inl e
                        | Inr _ \<Rightarrow>
                            getitem_columns (ordered_columns groups)
                              (rename_columns (rename_map groups) frame))))"

definition filterVAR_main :: "column_groups \<Rightarrow> 'a files \<Rightarrow> 'a run" where
  "filterVAR_main groups fs =
     (case build_dataset groups fs of
        Inl exc \<Rightarrow>
          \<lparr>status = Exit 1, stdout = [],
           stderr = [''Error while constructing SDT feature set: '' @ str_exc exc],
           files = fs\<rparr>
      | Inr dataset \<Rightarrow>
          \<lparr>status = Exit 0,
           stdout = [''Saved SDT subset with '' @ str_nat (length (rows dataset))
                     @ '' rows to '' @ path_name filterVAR_OUTPUT_FILE @ ''.''],
           stderr = [],
           files = to_csv filterVAR_OUTPUT_FILE True dataset fs\<rparr>)"

text \<open>The cells of a row by column label, as a dictionary (the first column of a label).\<close>

definition row_dict :: "string list \<Rightarrow> 'a list \<Rightarrow> string \<Rightarrow> 'a option" where
  "row_dict cols r = map_of (zip cols r)"

section \<open>The Transaction Flattener (data_prep.py)\<close>

subsection \<open>Python values and \<^verbatim>\<open>float\<close>\<close>

text \<open>
  A Python float is kept as the number it denotes, exactly, or as one of the three special
  values; rounding to binary64, its range and the sign of zero are not modelled.
\<close>

datatype pyfloat = Finite rat | PosInf | NegInf | NaN

text \<open>
  The values that a cell of the flattened table can hold: what \<^verbatim>\<open>json.load\<close> produces
  for a leaf (\<^verbatim>\<open>None\<close>, a boolean, an integer, a float, a string, a list), a float \<open>NaN\<close>
  standing for a key that a record does not have.
\<close>

datatype pyval =
    PNone
  | PBool bool
  | PInt int
  | PFloat pyfloat
  | PStr string
  | PList "pyval list"

text \<open>The truth value of a Python object, as \<^verbatim>\<open>if x\<close> tests it.\<close>

fun truthy :: "pyval \<Rightarrow> bool" where
  "truthy PNone = False"
| "truthy (PBool b) = b"
| "truthy (PInt n) = (n \<noteq> 0)"
| "truthy (PFloat f) = (f \<noteq> Finite 0)"
| "truthy (PStr s) = (s \<noteq> [])"
| "truthy (PList xs) = (xs \<noteq> [])"

fun type_name :: "pyval \<Rightarrow> string" where
  "type_name PNone = ''NoneType''"
| "type_name (PBool b) = ''bool''"
| "type_name (PInt n) = ''int''"
| "type_name (PFloat f) = ''float''"
| "type_name (PStr s) = ''str''"
| "type_name (PList xs) = ''list''"

text \<open>
  \<^verbatim>\<open>float(s)\<close> for a string: white space around the text is dropped; then come an
  optional sign and either \<^verbatim>\<open>inf\<close>, \<^verbatim>\<open>infinity\<close> or \<^verbatim>\<open>nan\<close> in any case, or a decimal
  number: digits with an optional point, then an optional exponent. Between two digits a
  single underscore may stand. Anything else raises \<^verbatim>\<open>ValueError\<close>. (White space and
  digits beyond ASCII are not modelled.)
\<close>

definition is_space :: "char \<Rightarrow> bool" where
  "is_space c = (c \<in> set [CHR 0x09, CHR 0x0A, CHR 0x0B, CHR 0x0C, CHR 0x0D,
                           CHR 0x1C, CHR 0x1D, CHR 0x1E, CHR 0x1F, CHR 0x20])"

definition strip :: "string \<Rightarrow> string" where
  "strip s = rev (dropWhile is_space (rev (dropWhile is_space s)))"

definition is_digit :: "char \<Rightarrow> bool" where
  "is_digit c = (c \<in> set ''0123456789'')"

definition digit_value :: "char \<Rightarrow> nat" where
  "digit_value c = (of_char c :: nat) - 48"

definition lower :: "char \<Rightarrow> char" where
  "lower c = (case map_of (zip ''ABCDEFGHIJKLMNOPQRSTUVWXYZ'' ''abcdefghijklmnopqrstuvwxyz'') c of
                None \<Rightarrow> c | Some l \<Rightarrow> l)"

text \<open>A run of digits in which single underscores separate digits.\<close>

fun digitpart_ok :: "string \<Rightarrow> bool" where
  "digitpart_ok [] = False"
| "digitpart_ok [c] = is_digit c"
| "digitpart_ok (c # d # cs) =
     (is_digit c \<and> (if d = CHR ''_'' then digitpart_ok cs else digitpart_ok (d # cs)))"

definition digits_value :: "string \<Rightarrow> nat" where
  "digits_value s = foldl (\<lambda>a c. 10 * a + digit_value c) 0 (filter is_digit s)"

text \<open>The part before the exponent: \<^verbatim>\<open>12\<close>, \<^verbatim>\<open>12.\<close>, \<^verbatim>\<open>12.5\<close> or \<^verbatim>\<open>.5\<close>.\<close>

definition parse_number :: "string \<Rightarrow> rat option" where
  "parse_number s =
     (let ip = takeWhile (\<lambda>c. c \<noteq> CHR ''.'') s;
          rest = dropWhile (\<lambda>c. c \<noteq> CHR ''.'') s
      in if rest = [] then (if digitpart_ok ip then Some (of_nat (digits_value ip)) else None)
         else (let fp = tl rest
               in if (ip = [] \<or> digitpart_ok ip) \<and> (fp = [] \<or> digitpart_ok fp)
                     \<and> \<not> (ip = [] \<and> fp = [])
                  then Some (of_nat (digits_value ip)
                             + of_nat (digits_value fp) / 10 ^ length (filter is_digit fp))
                  else None))"

text \<open>What follows the letter of the exponent: an optional sign and digits.\<close>

definition parse_exponent :: "string \<Rightarrow> int option" where
  "parse_exponent s =
     (case s of
        [] \<Rightarrow> None
      | c # cs \<Rightarrow>
          if c = CHR ''+'' then (if digitpart_ok cs then Some (int (digits_value cs)) else None)
          else if c = CHR ''-'' then (if digitpart_ok cs then Some (- int (digits_value cs)) else None)
          else if digitpart_ok s then Some (int (digits_value s)) else None)"

definition parse_finite :: "string \<Rightarrow> rat option" where
  "parse_finite s =
     (let m = takeWhile (\<lambda>c. c \<noteq> CHR ''e'' \<and> c \<noteq> CHR ''E'') s;
          rest = dropWhile (\<lambda>c. c \<noteq> CHR ''e'' \<and> c \<noteq> CHR ''E'') s
      in case parse_number m of
           None \<Rightarrow> None
         | Some v \<Rightarrow>
             if rest = [] then Some v
             else (case parse_exponent (tl rest) of
                     None \<Rightarrow> None
                   | Some e \<Rightarrow> Some (if 0 \<le> e then v * 10 ^ nat e else v / 10 ^ nat (- e))))"

definition float_of_string :: "string \<Rightarrow> error + pyfloat" where
  "float_of_string s =
     (let t = strip s;
          neg = (t \<noteq> [] \<and> hd t = CHR ''-'');
          body = (if t \<noteq> [] \<and> (hd t = CHR ''-'' \<or> hd t = CHR ''+'') then tl t else t);
          low = map lower body
      in if low = ''inf'' \<or> low = ''infinity'' then Inr (if neg then NegInf else PosInf)
         else if low = ''nan'' then Inr NaN
         else (case parse_finite body of
                 Some v \<Rightarrow> Inr (Finite (if neg then - v else v))
               | None \<Rightarrow> Inl (ValueError (''could not convert string to float: '' @ py_repr s))))"

text \<open>
  \<^verbatim>\<open>float(x)\<close> for any value: a string is parsed, a number is converted, anything else
  raises \<^verbatim>\<open>TypeError\<close> (the message is that of Python 3.10 and later).
\<close>

definition float_type_error :: "pyval \<Rightarrow> error" where
  "float_type_error x =
     TypeError (''float() argument must be a string or a real number, not ''
                @ [CHR 0x27] @ type_name x @ [CHR 0x27])"

fun py_float :: "pyval \<Rightarrow> error + pyfloat" where
  "py_float (PStr s) = float_of_string s"
| "py_float (PInt n) = Inr (Finite (of_int n))"
| "py_float (PBool b) = Inr (Finite (if b then 1 else 0))"
| "py_float (PFloat f) = Inr f"
| "py_float PNone = Inl (float_type_error PNone)"
| "py_float (PList xs) = Inl (float_type_error (PList xs))"

text \<open>\<^verbatim>\<open>s.split(sep)\<close> for a separator of one character.\<close>

fun split_on :: "char \<Rightarrow> string \<Rightarrow> string list" where
  "split_on sep [] = [[]]"
| "split_on sep (c # cs) =
     (if c = sep then [] # split_on sep cs
      else (case split_on sep cs of
              [] \<Rightarrow> [[c]]
            | p # ps \<Rightarrow> (c # p) # ps))"

text \<open>\<^verbatim>\<open>x.split('/')\<close>: only a string has the method.\<close>

definition py_split :: "pyval \<Rightarrow> error + string list" where
  "py_split x =
     (case x of
        PStr s \<Rightarrow> Inr (split_on CHR ''/'' s)
      | _ \<Rightarrow> Inl (AttributeError
                ([CHR 0x27] @ type_name x @ [CHR 0x27] @ '' object has no attribute ''
                 @ [CHR 0x27] @ ''split'' @ [CHR 0x27])))"

text \<open>\<^verbatim>\<open>parts[i]\<close> for an index that is not negative.\<close>

definition py_index :: "'a list \<Rightarrow> nat \<Rightarrow> error + 'a" where
  "py_index xs i = (if i < length xs then Inr (xs ! i) else Inl (IndexError ''list index out of range''))"

subsection \<open>The script\<close>

text \<open>Lines 16 to 19: \<^verbatim>\<open>lambda x: float(x) if x else None\<close>.\<close>

definition to_float_or_none :: "pyval \<Rightarrow> error + pyval" where
  "to_float_or_none x =
     (if truthy x
      then (case py_float x of Inl e \<Rightarrow> Inl e | Inr f \<Rightarrow> Inr (PFloat f))
      else Inr PNone)"

text \<open>Lines 22 to 25: \<^verbatim>\<open>lambda x: float(x.split('/')[i]) if x else None\<close>, for \<open>i\<close> 0 or 1.\<close>

definition split_part :: "nat \<Rightarrow> pyval \<Rightarrow> error + pyval" where
  "split_part i x =
     (if truthy x
      then (case py_split x of
              Inl e \<Rightarrow> Inl e
            | Inr parts \<Rightarrow>
                (case py_index parts i of
                   Inl e \<Rightarrow> Inl e
                 | Inr part \<Rightarrow>
                     (case float_of_string part of
                        Inl e \<Rightarrow> Inl e
                      | Inr f \<Rightarrow> Inr (PFloat f))))
      else Inr PNone)"

text \<open>
  \<^verbatim>\<open>Series.apply(f)\<close>: \<open>f\<close> on each cell from the first row to the last; the first
  exception ends the call.
\<close>

fun series_apply :: "('a \<Rightarrow> error + 'b) \<Rightarrow> 'a list \<Rightarrow> error + 'b list" where
  "series_apply f [] = Inr []"
| "series_apply f (x # xs) =
     (case f x of
        Inl e \<Rightarrow> Inl e
      | Inr y \<Rightarrow> (case series_apply f xs of Inl e \<Rightarrow> Inl e | Inr ys \<Rightarrow> Inr (y # ys)))"

text \<open>
  The table \<^verbatim>\<open>df\<close> that \<^verbatim>\<open>pd.json_normalize\<close> builds, column by column: \<^verbatim>\<open>df[c]\<close>
  reads a column and raises \<^verbatim>\<open>KeyError\<close> when there is none of that name;
  \<^verbatim>\<open>df[c] = values\<close> replaces the column of that name where it stands, or adds a new
  last column.
\<close>

type_synonym table = "(string \<times> pyval list) list"

definition get_column :: "table \<Rightarrow> string \<Rightarrow> error + pyval list" where
  "get_column df c = (case map_of df c of None \<Rightarrow> Inl (KeyError c) | Some col \<Rightarrow> Inr col)"

fun set_column :: "string \<Rightarrow> pyval list \<Rightarrow> table \<Rightarrow> table" where
  "set_column c vs [] = [(c, vs)]"
| "set_column c vs ((k, old) # rest) =
     (if k = c then (c, vs) # rest else (k, old) # set_column c vs rest)"

text \<open>One statement \<^verbatim>\<open>df[target] = df[source].apply(f)\<close>.\<close>

definition assign_applied ::
  "string \<times> string \<times> (pyval \<Rightarrow> error + pyval) \<Rightarrow> table \<Rightarrow> error + table" where
  "assign_applied step df =
     (case step of
        (target, source, f) \<Rightarrow>
          (case get_column df source of
             Inl e \<Rightarrow> Inl e
           | Inr col \<Rightarrow>
               (case series_apply f col of
                  Inl e \<Rightarrow> Inl e
                | Inr vs \<Rightarrow> Inr (set_column target vs df))))"

text \<open>The eight statements of lines 16 to 25, in order.\<close>

definition statements :: "(string \<times> string \<times> (pyval \<Rightarrow> error + pyval)) list" where
  "statements =
     [(''estate_map_latitude'', ''estate_map_latitude'', to_float_or_none),
      (''estate_map_longitude'', ''estate_map_longitude'', to_float_or_none),
      (''transaction_price'', ''transaction_price'', to_float_or_none),
      (''discount_rate'', ''discount_rate'', to_float_or_none),
      (''saleable_floor_area_per_sq_m'', ''saleable_floor_area'', split_part 0),
      (''saleable_floor_area_per_sq_ft'', ''saleable_floor_area'', split_part 1),
      (''transaction_price_per_sq_m'', ''transaction_price_per_sq'', split_part 0),
      (''transaction_price_per_sq_ft'', ''transaction_price_per_sq'', split_part 1)]"

text \<open>Statements one after the other; an exception ends the run.\<close>

fun run_statements ::
  "(string \<times> string \<times> (pyval \<Rightarrow> error + pyval)) list \<Rightarrow> table \<Rightarrow> error + table" where
  "run_statements [] df = Inr df"
| "run_statements (step # rest) df =
     (case assign_applied step df of Inl e \<Rightarrow> Inl e | Inr df' \<Rightarrow> run_statements rest df')"

text \<open>
  The script from the flattened table on: the eight statements, then the two files. The
  result is the exception that ended the script, or the files written with their content.
\<close>

definition data_prep :: "table \<Rightarrow> error + (string \<times> table) list" where
  "data_prep df =
     (case run_statements statements df of
        Inl e \<Rightarrow> Inl e
      | Inr df' \<Rightarrow>
          Inr [(''tps_sale_transactions_en.csv'', df'), (''tps_sale_transactions_en.xlsx'', df')])"

text \<open>
  No statement of a list assigns a column that a later statement of the list reads or
  assigns: each target then still holds, at the end, what its statement put there, and
  each source is read as it was at the start.
\<close>

fun independent ::
  "(string \<times> string \<times> (pyval \<Rightarrow> error + pyval)) list \<Rightarrow> bool" where
  "independent [] = True"
| "independent (step # rest) =
     (fst step \<notin> set (map fst rest) \<and> fst step \<notin> set (map (\<lambda>st. fst (snd st)) rest)
      \<and> independent rest)"

section \<open>Example inputs\<close>

text \<open>
  Small inputs on which the theorems below are instantiated: a source whose second and
  fourth columns end in \<open>R\<close>, read in blocks of two rows, what the Column Dropper writes
  for it, and a source that has no such column.
\<close>

definition example_source :: "int frame" where
  "example_source =
     \<lparr>columns = [''A'', ''B_R'', ''C'', ''D_R''],
      rows = [[1, 2, 3, 4], [5, 6, 7, 8], [9, 10, 11, 12]]\<rparr>"

definition example_files :: "int files" where
  "example_files = [filterR_SOURCE_FILE \<mapsto> Dataset example_source]"

definition example_clean :: "int frame" where
  "example_clean = \<lparr>columns = [''A'', ''R2'', ''C''], rows = [[1, 2, 3], [4, 5, 6]]\<rparr>"

definition example_output :: "int frame" where
  "example_output = \<lparr>columns = [''A'', ''C''], rows = [[1, 3], [5, 7], [9, 11]]\<rparr>"


text \<open>
  An extract of the survey for the Feature Subsetter: every column that the script asks for,
  in an order that is not the declared one, between two columns that it does not ask for.
  In the first row the target \<open>Q49\<close> is 7 and the predictor \<open>Q47\<close> is 3.
\<close>

definition example_wvs :: "int frame" where
  "example_wvs =
     \<lparr>columns =
        [''Q1'', ''Q259'', ''Q258'', ''Q257'', ''Q256'', ''Q255'', ''Q254'',
         ''Q172'', ''Q171'', ''Q164'', ''Q105'', ''Q104'', ''Q103'',
         ''Q102'', ''Q101'', ''Q100'', ''Q99'', ''Q98'', ''Q97'', ''Q96'',
         ''Q95'', ''Q94'', ''Q63'', ''Q62'', ''Q61'', ''Q60'', ''Q59'',
         ''Q58'', ''Q57'', ''Q253'', ''Q251'', ''Q148'', ''Q147'', ''Q146'',
         ''Q131'', ''Q48'', ''Q143'', ''Q142'', ''Q56'', ''Q50'', ''Q47'',
         ''Q49'', ''Q260''],
      rows =
        [[3, 9, 7, 5, 3, 1, 9, 5, 3, 9, 1, 9, 7, 5, 3, 1, 9, 7, 5, 3, 1, 9,
          7, 5, 3, 1, 9, 7, 5, 7, 3, 7, 5, 3, 3, 7, 7, 5, 3, 1, 3, 7, 1],
         [4, 8, 5, 2, 9, 6, 3, 7, 4, 3, 6, 3, 10, 7, 4, 1, 8, 5, 2, 9, 6, 3,
          10, 7, 4, 1, 8, 5, 2, 10, 4, 5, 2, 9, 4, 5, 10, 7, 9, 1, 2, 8, 1]]\<rparr>"

definition example_wvs_files :: "int files" where
  "example_wvs_files = [FALLBACK_SOURCE \<mapsto> Dataset example_wvs]"

text \<open>The same extract without the columns \<open>Q49\<close> and \<open>Q47\<close>.\<close>

definition example_wvs_short :: "int frame" where
  "example_wvs_short = drop_columns [''Q49'', ''Q47''] example_wvs"

definition example_short_files :: "int files" where
  "example_short_files = [DEFAULT_SOURCE \<mapsto> Dataset example_wvs_short]"

text \<open>A table of groups that declares no predictor.\<close>

definition example_empty_groups :: column_groups where
  "example_empty_groups = [(''com'', []), (''aut'', []), (''rel'', [])]"

text \<open>
  Three flattened transactions: the first with every field filled in, the second with
  empty and absent values, the third with a number 0 and a string \<open>0\<close>.
\<close>

definition example_transactions :: table where
  "example_transactions =
     [(''estate_name'', [PStr ''Taikoo Shing'', PStr ''Mei Foo'', PStr ''City One'']),
      (''estate_map_latitude'', [PStr ''22.25'', PStr '''', PInt 0]),
      (''estate_map_longitude'', [PStr ''114.5'', PNone, PStr ''0'']),
      (''transaction_price'', [PStr ''7.5'', PStr '''', PStr ''0'']),
      (''discount_rate'', [PStr ''-2'', PNone, PInt 0]),
      (''saleable_floor_area'', [PStr ''12.5/34.2'', PStr '''', PStr ''500/5382'']),
      (''transaction_price_per_sq'', [PStr ''1e3/93'', PNone, PStr ''1/2/3''])]"

text \<open>One transaction whose floor area is not of the form of two numbers around a slash.\<close>

definition example_malformed :: table where
  "example_malformed =
     [(''estate_map_latitude'', [PStr ''22.25'']),
      (''estate_map_longitude'', [PStr ''114.5'']),
      (''transaction_price'', [PStr ''7.5'']),
      (''discount_rate'', [PStr ''-2'']),
      (''saleable_floor_area'', [PStr ''abc'']),
      (''transaction_price_per_sq'', [PStr ''1e3/93''])]"

text \<open>The table that the eight statements make of the three transactions.\<close>

definition example_flattened :: table where
  "example_flattened =
     [(''estate_name'', [PStr ''Taikoo Shing'', PStr ''Mei Foo'', PStr ''City One'']),
      (''estate_map_latitude'', [PFloat (Finite (89 / 4)), PNone, PNone]),
      (''estate_map_longitude'', [PFloat (Finite (229 / 2)), PNone, PFloat (Finite 0)]),
      (''transaction_price'', [PFloat (Finite (15 / 2)), PNone, PFloat (Finite 0)]),
      (''discount_rate'', [PFloat (Finite (- 2)), PNone, PNone]),
      (''saleable_floor_area'', [PStr ''12.5/34.2'', PStr '''', PStr ''500/5382'']),
      (''transaction_price_per_sq'', [PStr ''1e3/93'', PNone, PStr ''1/2/3'']),
      (''saleable_floor_area_per_sq_m'', [PFloat (Finite (25 / 2)), PNone, PFloat (Finite 500)]),
      (''saleable_floor_area_per_sq_ft'', [PFloat (Finite (171 / 5)), PNone, PFloat (Finite 5382)]),
      (''transaction_price_per_sq_m'', [PFloat (Finite 1000), PNone, PFloat (Finite 1)]),
      (''transaction_price_per_sq_ft'', [PFloat (Finite 93), PNone, PFloat (Finite 2)])]"

section \<open>Properties of the Column Dropper\<close>

subsection \<open>Strings, blocks and columns\<close>

lemma endswith_suffix: "endswith s suf \<longleftrightarrow> suffix suf s"
  unfolding endswith_def
  by (metis append_take_drop_id suffix_drop suffix_length_le suffix_take append_eq_conv_conj)

lemma chunked_nonempty: "chunked n xs \<noteq> []"
  by (subst chunked.simps) simp

lemma concat_chunked: "concat (chunked n xs) = xs"
proof (induction n xs rule: chunked.induct)
  case (1 n xs)
  then show ?case by (subst chunked.simps) simp
qed

lemma select_cells_Cons:
  "select_cells P (c # cs) (v # vs) = (if P c then v # select_cells P cs vs else select_cells P cs vs)"
  by (simp add: select_cells_def)

lemma length_select_cells:
  "length r = length cols \<Longrightarrow> length (select_cells P cols r) = length (filter P cols)"
proof (induction cols arbitrary: r)
  case Nil then show ?case by (simp add: select_cells_def)
next
  case (Cons c cs)
  then obtain v vs where "r = v # vs" by (cases r) auto
  with Cons show ?case by (simp add: select_cells_Cons)
qed

lemma to_columns_select:
  "\<forall>r\<in>set rs. length r = length cols \<Longrightarrow>
   to_columns (filter P cols) (map (select_cells P cols) rs)
     = filter (\<lambda>(c, vs). P c) (to_columns cols rs)"
proof (induction cols arbitrary: rs)
  case Nil
  then show ?case by simp
next
  case (Cons c cs)
  have ne: "\<forall>r\<in>set rs. r = hd r # tl r \<and> length (tl r) = length cs"
    using Cons.prems by (auto simp: length_Suc_conv)
  have sel: "map (select_cells P (c # cs)) rs
      = (if P c then map (\<lambda>r. hd r # select_cells P cs (tl r)) rs
         else map (\<lambda>r. select_cells P cs (tl r)) rs)"
    using ne by (auto intro!: map_cong[OF refl]) (metis select_cells_Cons)+
  have IH: "to_columns (filter P cs) (map (select_cells P cs) (map tl rs))
      = filter (\<lambda>(c, vs). P c) (to_columns cs (map tl rs))"
    using ne by (intro Cons.IH) auto
  show ?case using IH by (simp add: sel o_def)
qed

lemma frame_eta: "\<lparr>columns = columns (f::'a frame), rows = rows f\<rparr> = f"
  by simp

lemma write_chunks_append:
  "fs filterR_OUTPUT_FILE = Some (Dataset old) \<Longrightarrow>
   write_chunks d False chunks fs =
     fs(filterR_OUTPUT_FILE \<mapsto> Dataset
        \<lparr>columns = columns old, rows = rows old @ concat (map (\<lambda>c. rows (drop_columns d c)) chunks)\<rparr>)"
proof (induction chunks arbitrary: fs old)
  case Nil
  then show ?case by (simp add: fun_upd_idem)
next
  case (Cons c cs)
  define old' where "old' = \<lparr>columns = columns old, rows = rows old @ rows (drop_columns d c)\<rparr>"
  define fs' where "fs' = to_csv filterR_OUTPUT_FILE False (drop_columns d c) fs"
  have fs': "fs' = fs(filterR_OUTPUT_FILE \<mapsto> Dataset old')"
    using Cons.prems by (simp add: fs'_def old'_def to_csv_def)
  then have "fs' filterR_OUTPUT_FILE = Some (Dataset old')"
    by simp
  then have "write_chunks d False cs fs' =
      fs'(filterR_OUTPUT_FILE \<mapsto> Dataset
        \<lparr>columns = columns old', rows = rows old' @ concat (map (\<lambda>c. rows (drop_columns d c)) cs)\<rparr>)"
    by (rule Cons.IH)
  moreover have "write_chunks d False (c # cs) fs = write_chunks d False cs fs'"
    by (simp add: fs'_def)
  ultimately show ?case
    by (simp add: fs' old'_def)
qed

lemma write_chunks_first:
  "write_chunks d True (c # cs) fs =
     fs(filterR_OUTPUT_FILE \<mapsto> Dataset
        \<lparr>columns = columns (drop_columns d c),
         rows = concat (map (\<lambda>c. rows (drop_columns d c)) (c # cs))\<rparr>)"
proof -
  define old where "old = \<lparr>columns = columns (drop_columns d c), rows = rows (drop_columns d c)\<rparr>"
  define fs' where "fs' = to_csv filterR_OUTPUT_FILE True (drop_columns d c) fs"
  have fs': "fs' = fs(filterR_OUTPUT_FILE \<mapsto> Dataset old)"
    by (simp add: fs'_def old_def to_csv_def)
  then have "fs' filterR_OUTPUT_FILE = Some (Dataset old)"
    by simp
  then have "write_chunks d False cs fs' =
      fs'(filterR_OUTPUT_FILE \<mapsto> Dataset
        \<lparr>columns = columns old, rows = rows old @ concat (map (\<lambda>c. rows (drop_columns d c)) cs)\<rparr>)"
    by (rule write_chunks_append)
  moreover have "write_chunks d True (c # cs) fs = write_chunks d False cs fs'"
    by (simp add: fs'_def)
  ultimately show ?thesis
    by (simp add: fs' old_def)
qed

lemma read_csv_chunks_simps [simp]:
  "read_csv_chunks n (Dataset f) = Inr (frame_chunks n f)"
  "read_csv_chunks n (Unreadable e) = Inl e"
  by (simp_all add: read_csv_chunks_def)

lemma frame_chunks_Cons:
  "\<exists>c cs. frame_chunks n src = c # cs \<and> columns c = columns src"
  unfolding frame_chunks_def using chunked_nonempty[of n "rows src"]
  by (cases "chunked n (rows src)") auto

lemma write_chunks_read:
  "write_chunks d True (frame_chunks n src) fs = fs(filterR_OUTPUT_FILE \<mapsto> Dataset (drop_columns d src))"
proof -
  obtain c cs where cs: "frame_chunks n src = c # cs"
    using frame_chunks_Cons by blast
  have cols: "columns (drop_columns d c) = columns (drop_columns d src)"
    using cs by (cases "chunked n (rows src)") (auto simp: frame_chunks_def drop_columns_def)
  have "concat (map (\<lambda>c. rows (drop_columns d c)) (frame_chunks n src))
      = map (select_cells (\<lambda>c. c \<notin> set d) (columns src)) (concat (chunked n (rows src)))"
    by (simp add: frame_chunks_def drop_columns_def o_def map_concat)
  then have "concat (map (\<lambda>c. rows (drop_columns d c)) (c # cs)) = rows (drop_columns d src)"
    by (simp add: cs concat_chunked drop_columns_def)
  with cols show ?thesis
    unfolding cs write_chunks_first by (simp add: frame_eta)
qed

lemma write_filtered_csv_eq:
  "fs filterR_SOURCE_FILE = Some (Dataset src) \<Longrightarrow>
   write_filtered_csv n d fs = Inr (fs(filterR_OUTPUT_FILE \<mapsto> Dataset (drop_columns d src)))"
  by (simp add: write_filtered_csv_def write_chunks_read)

lemma select_cells_cong:
  "(\<And>c. c \<in> set cols \<Longrightarrow> P c = Q c) \<Longrightarrow> select_cells P cols r = select_cells Q cols r"
  unfolding select_cells_def
  by (rule arg_cong[where f = "map snd"], rule filter_cong) (auto dest: set_zip_leftD)

lemma drop_columns_to_drop:
  "drop_columns (columns_to_drop (columns src) suf) src =
     \<lparr>columns = [c \<leftarrow> columns src. \<not> endswith c suf],
      rows = map (select_cells (\<lambda>c. \<not> endswith c suf) (columns src)) (rows src)\<rparr>"
proof -
  have a: "[c \<leftarrow> columns src. c \<notin> set (columns_to_drop (columns src) suf)]
         = [c \<leftarrow> columns src. \<not> endswith c suf]"
    by (rule filter_cong) (auto simp: columns_to_drop_def)
  have b: "select_cells (\<lambda>c. c \<notin> set (columns_to_drop (columns src) suf)) (columns src)
         = select_cells (\<lambda>c. \<not> endswith c suf) (columns src)"
    by (rule ext, rule select_cells_cong) (auto simp: columns_to_drop_def)
  show ?thesis by (simp add: drop_columns_def a b)
qed

lemma wf_frame_drop_columns: "wf_frame f \<Longrightarrow> wf_frame (drop_columns d f)"
  by (auto simp: wf_frame_def drop_columns_def list_all_iff length_select_cells)

lemma frame_columns_drop:
  "wf_frame src \<Longrightarrow>
   frame_columns (drop_columns (columns_to_drop (columns src) suf) src)
     = [(c, vs) \<leftarrow> frame_columns src. \<not> endswith c suf]"
  unfolding drop_columns_to_drop frame_columns_def
  by (simp add: to_columns_select wf_frame_def list_all_iff)

text \<open>
  Claim C1 (Column Dropper correctness). For every rectangular source dataset, every suffix
  and every block size, \<^verbatim>\<open>_write_filtered_csv\<close> called with the columns that
  \<^verbatim>\<open>_columns_to_drop\<close> finds writes an output dataset whose columns are exactly the
  columns of the source whose names do not end with the suffix, in their original order,
  each with the values it has in the source from the first row to the last, whatever the
  division of the rows into blocks; the number of rows is unchanged. With the suffix
  \<open>R\<close> and at least one column to drop, this is the file that \<^verbatim>\<open>main\<close> leaves.
\<close>

theorem column_dropper_correct:
  assumes "fs filterR_SOURCE_FILE = Some (Dataset src)" and "wf_frame src" and "0 < n"
  shows "\<exists>out.
      write_filtered_csv n (columns_to_drop (columns src) suf) fs
        = Inr (fs(filterR_OUTPUT_FILE \<mapsto> Dataset out))
    \<and> columns out = [c \<leftarrow> columns src. \<not> endswith c suf]
    \<and> frame_columns out = [(c, vs) \<leftarrow> frame_columns src. \<not> endswith c suf]
    \<and> length (rows out) = length (rows src)
    \<and> wf_frame out
    \<and> (suf = ''R'' \<and> columns_to_drop (columns src) suf \<noteq> [] \<longrightarrow>
         status (filterR_main n fs) = Exit 0 \<and>
         files (filterR_main n fs) = fs(filterR_OUTPUT_FILE \<mapsto> Dataset out))"
proof -
  let ?d = "columns_to_drop (columns src) suf"
  let ?out = "drop_columns ?d src"
  have 1: "write_filtered_csv n ?d fs = Inr (fs(filterR_OUTPUT_FILE \<mapsto> Dataset ?out))"
    using assms(1) by (rule write_filtered_csv_eq)
  have 2: "columns ?out = [c \<leftarrow> columns src. \<not> endswith c suf]"
    by (simp add: drop_columns_to_drop)
  have 3: "frame_columns ?out = [(c, vs) \<leftarrow> frame_columns src. \<not> endswith c suf]"
    using assms(2) by (rule frame_columns_drop)
  have 4: "length (rows ?out) = length (rows src)"
    by (simp add: drop_columns_def)
  have 5: "wf_frame ?out"
    using assms(2) by (rule wf_frame_drop_columns)
  obtain c cs where cs: "frame_chunks n src = c # cs" "columns c = columns src"
    using frame_chunks_Cons by blast
  have 6: "suf = ''R'' \<and> ?d \<noteq> [] \<longrightarrow>
         status (filterR_main n fs) = Exit 0 \<and>
         files (filterR_main n fs) = fs(filterR_OUTPUT_FILE \<mapsto> Dataset ?out)"
    using assms(1) cs 1 by (auto simp: filterR_main_def Let_def)
  from 1 2 3 4 5 6 show ?thesis by blast
qed

lemma path_name_SOURCE [simp]:
  "path_name filterR_SOURCE_FILE = ''Q1_Q260_filtered_30%row_and_column.csv''"
  by (simp add: path_name_def filterR_SOURCE_FILE_def)

lemma path_name_OUTPUT [simp]:
  "path_name filterR_OUTPUT_FILE = ''Q1_Q260_filtered_30%row_and_column_no_R.csv''"
  by (simp add: path_name_def filterR_OUTPUT_FILE_def)

lemma SOURCE_neq_OUTPUT [simp]: "filterR_SOURCE_FILE \<noteq> filterR_OUTPUT_FILE"
  by (simp add: filterR_SOURCE_FILE_def filterR_OUTPUT_FILE_def)

theorem column_dropper_correct_witness:
  "example_files filterR_SOURCE_FILE = Some (Dataset example_source) \<and> wf_frame example_source \<and> (0::nat) < 2
   \<and> (\<exists>out. write_filtered_csv 2 (columns_to_drop (columns example_source) ''R'') example_files
               = Inr (example_files(filterR_OUTPUT_FILE \<mapsto> Dataset out))
          \<and> columns out = [''A'', ''C'']
          \<and> frame_columns out = [(''A'', [1, 5, 9]), (''C'', [3, 7, 11])]
          \<and> length (rows out) = 3
          \<and> files (filterR_main 2 example_files) = example_files(filterR_OUTPUT_FILE \<mapsto> Dataset out))"
proof -
  have h1: "example_files filterR_SOURCE_FILE = Some (Dataset example_source)"
    by (simp add: example_files_def)
  have h2: "wf_frame example_source"
    by (simp add: wf_frame_def example_source_def)
  have h3: "(0::nat) < 2"
    by simp
  have e1: "[c \<leftarrow> columns example_source. \<not> endswith c ''R''] = [''A'', ''C'']"
    by (simp add: example_source_def endswith_def)
  have e2: "[(c, vs) \<leftarrow> frame_columns example_source. \<not> endswith c ''R'']
      = [(''A'', [1, 5, 9]), (''C'', [3, 7, 11])]"
    by (simp add: example_source_def frame_columns_def endswith_def)
  have e3: "columns_to_drop (columns example_source) ''R'' \<noteq> []"
    by (simp add: example_source_def columns_to_drop_def endswith_def)
  have e4: "length (rows example_source) = 3"
    by (simp add: example_source_def)
  from column_dropper_correct[where fs = example_files and src = example_source and n = 2
         and suf = "''R''"] h1 h2 h3 show ?thesis
    unfolding e1 e2 e4 using e3 by blast
qed

text \<open>
  Claim C9 (empty drop set). When the source exists and none of its column names ends with
  \<open>R\<close>, \<^verbatim>\<open>main\<close> leaves every file as it was (the output location included), prints
  that there is nothing to filter, and returns status 0.
\<close>

theorem empty_drop_set_frame:
  assumes "fs filterR_SOURCE_FILE = Some (Dataset src)"
    and "\<forall>c \<in> set (columns src). \<not> endswith c ''R''"
  shows "filterR_main n fs =
     \<lparr>status = Exit 0,
      stdout = [''Loading column headers from Q1_Q260_filtered_30%row_and_column.csv...'',
                ''No columns ending with 'R' found; nothing to filter.''],
      stderr = [], files = fs\<rparr>"
proof -
  obtain c cs where cs: "frame_chunks n src = c # cs" "columns c = columns src"
    using frame_chunks_Cons by blast
  have "columns_to_drop (columns src) ''R'' = []"
    using assms(2) by (simp add: columns_to_drop_def filter_empty_conv)
  then show ?thesis
    using assms(1) cs by (simp add: filterR_main_def)
qed

theorem empty_drop_set_frame_witness:
  "[filterR_SOURCE_FILE \<mapsto> Dataset example_clean] filterR_SOURCE_FILE = Some (Dataset example_clean)
   \<and> list_all (\<lambda>c. \<not> endswith c ''R'') (columns example_clean)
   \<and> filterR_main CHUNK_SIZE [filterR_SOURCE_FILE \<mapsto> Dataset example_clean] =
     \<lparr>status = Exit 0,
      stdout = [''Loading column headers from Q1_Q260_filtered_30%row_and_column.csv...'',
                ''No columns ending with 'R' found; nothing to filter.''],
      stderr = [], files = [filterR_SOURCE_FILE \<mapsto> Dataset example_clean]\<rparr>"
proof -
  have h1: "[filterR_SOURCE_FILE \<mapsto> Dataset example_clean] filterR_SOURCE_FILE = Some (Dataset example_clean)"
    by simp
  have h2: "\<forall>c \<in> set (columns example_clean). \<not> endswith c ''R''"
    by (simp add: example_clean_def endswith_def)
  from empty_drop_set_frame[where fs = "[filterR_SOURCE_FILE \<mapsto> Dataset example_clean]"
         and src = example_clean and n = CHUNK_SIZE] h1 h2
  show ?thesis
    by (simp add: list_all_iff)
qed




lemma drop_columns_Nil: "wf_frame f \<Longrightarrow> drop_columns [] f = f"
proof -
  assume wf: "wf_frame f"
  have "map (select_cells (\<lambda>c. True) (columns f)) (rows f) = rows f"
    using wf by (intro map_idI) (simp add: wf_frame_def list_all_iff select_cells_def)
  then show ?thesis
    by (simp add: drop_columns_def)
qed

lemma columns_to_drop_dropped:
  "columns_to_drop (columns (drop_columns (columns_to_drop cols suf) \<lparr>columns = cols, rows = rs\<rparr>)) suf = []"
  by (auto simp: columns_to_drop_def drop_columns_def filter_empty_conv)

text \<open>
  Claim C6 (idempotence of the Column Dropper). Let a first run write the dataset \<open>out\<close>,
  and let a second run read \<open>out\<close> as its source. No column of \<open>out\<close> ends with the
  suffix, so the drop set of the second run is empty; writing the filtered copy for that
  drop set gives \<open>out\<close> again; and \<^verbatim>\<open>main\<close> itself (suffix \<open>R\<close>) then returns 0 and
  changes no file.
\<close>

theorem column_dropper_idempotent:
  assumes "fs filterR_SOURCE_FILE = Some (Dataset src)" and "wf_frame src" and "0 < n" and "0 < m"
    and "write_filtered_csv n (columns_to_drop (columns src) suf) fs = Inr fsa"
    and "fsa filterR_OUTPUT_FILE = Some (Dataset out)"
    and "fsb filterR_SOURCE_FILE = Some (Dataset out)"
  shows "columns_to_drop (columns out) suf = []
    \<and> write_filtered_csv m (columns_to_drop (columns out) suf) fsb
        = Inr (fsb(filterR_OUTPUT_FILE \<mapsto> Dataset out))
    \<and> (suf = ''R'' \<longrightarrow>
         status (filterR_main m fsb) = Exit 0 \<and> files (filterR_main m fsb) = fsb)"
proof -
  let ?d = "columns_to_drop (columns src) suf"
  have "fsa = fs(filterR_OUTPUT_FILE \<mapsto> Dataset (drop_columns ?d src))"
    using assms(1,5) by (simp add: write_filtered_csv_eq)
  then have out: "out = drop_columns ?d src"
    using assms(6) by simp
  have wf: "wf_frame out"
    unfolding out using assms(2) by (rule wf_frame_drop_columns)
  have none: "columns_to_drop (columns out) suf = []"
    unfolding out by (auto simp: columns_to_drop_def drop_columns_def filter_empty_conv)
  have again: "write_filtered_csv m (columns_to_drop (columns out) suf) fsb
      = Inr (fsb(filterR_OUTPUT_FILE \<mapsto> Dataset out))"
    using assms(7) wf by (simp add: none write_filtered_csv_eq drop_columns_Nil)
  obtain c cs where cs: "frame_chunks m out = c # cs" "columns c = columns out"
    using frame_chunks_Cons by blast
  have "suf = ''R'' \<longrightarrow>
      status (filterR_main m fsb) = Exit 0 \<and> files (filterR_main m fsb) = fsb"
    using assms(7) cs none by (auto simp: filterR_main_def)
  with none again show ?thesis by blast
qed

lemma example_first_run:
  "write_filtered_csv 2 (columns_to_drop (columns example_source) ''R'') example_files
     = Inr (example_files(filterR_OUTPUT_FILE \<mapsto> Dataset example_output))"
  by (simp add: write_filtered_csv_eq example_files_def drop_columns_def columns_to_drop_def
      example_source_def example_output_def endswith_def select_cells_def)

theorem column_dropper_idempotent_witness:
  "example_files filterR_SOURCE_FILE = Some (Dataset example_source) \<and> wf_frame example_source
   \<and> write_filtered_csv 2 (columns_to_drop (columns example_source) ''R'') example_files
       = Inr (example_files(filterR_OUTPUT_FILE \<mapsto> Dataset example_output))
   \<and> columns_to_drop (columns example_output) ''R'' = []
   \<and> write_filtered_csv 1 (columns_to_drop (columns example_output) ''R'')
        [filterR_SOURCE_FILE \<mapsto> Dataset example_output]
       = Inr [filterR_SOURCE_FILE \<mapsto> Dataset example_output, filterR_OUTPUT_FILE \<mapsto> Dataset example_output]
   \<and> files (filterR_main 1 [filterR_SOURCE_FILE \<mapsto> Dataset example_output])
       = [filterR_SOURCE_FILE \<mapsto> Dataset example_output]"
proof -
  have h1: "example_files filterR_SOURCE_FILE = Some (Dataset example_source)"
    by (simp add: example_files_def)
  have h2: "wf_frame example_source"
    by (simp add: wf_frame_def example_source_def)
  have h6: "(example_files(filterR_OUTPUT_FILE \<mapsto> Dataset example_output)) filterR_OUTPUT_FILE
      = Some (Dataset example_output)"
    by simp
  have h7: "[filterR_SOURCE_FILE \<mapsto> Dataset example_output] filterR_SOURCE_FILE = Some (Dataset example_output)"
    by simp
  have "columns_to_drop (columns example_output) ''R'' = []
    \<and> write_filtered_csv 1 (columns_to_drop (columns example_output) ''R'')
         [filterR_SOURCE_FILE \<mapsto> Dataset example_output]
        = Inr ([filterR_SOURCE_FILE \<mapsto> Dataset example_output](filterR_OUTPUT_FILE \<mapsto> Dataset example_output))
    \<and> (''R'' = ''R'' \<longrightarrow>
         status (filterR_main 1 [filterR_SOURCE_FILE \<mapsto> Dataset example_output]) = Exit 0 \<and>
         files (filterR_main 1 [filterR_SOURCE_FILE \<mapsto> Dataset example_output])
           = [filterR_SOURCE_FILE \<mapsto> Dataset example_output])"
    by (rule column_dropper_idempotent[where fs = example_files and src = example_source
          and n = 2 and fsa = "example_files(filterR_OUTPUT_FILE \<mapsto> Dataset example_output)"])
       (simp_all add: h1 h2 example_first_run)
  with h1 h2 example_first_run show ?thesis
    by blast
qed

section \<open>Properties of the Feature Subsetter\<close>

lemma zip_filter_select:
  "length r = length cols \<Longrightarrow>
   zip (filter P cols) (select_cells P cols r) = filter (\<lambda>(c, v). P c) (zip cols r)"
proof (induction cols arbitrary: r)
  case Nil
  then show ?case by (simp add: select_cells_def)
next
  case (Cons c cs)
  then obtain v vs where "r = v # vs" by (cases r) auto
  with Cons show ?case by (simp add: select_cells_Cons)
qed

lemma select_cells_single:
  "distinct cols \<Longrightarrow> length r = length cols \<Longrightarrow> c \<in> set cols \<Longrightarrow>
   \<exists>v. map_of (zip cols r) c = Some v \<and> select_cells (\<lambda>x. x = c) cols r = [v]"
proof (induction cols arbitrary: r)
  case Nil
  then show ?case by simp
next
  case (Cons a cs)
  then obtain v vs where r: "r = v # vs" by (cases r) auto
  show ?case
  proof (cases "a = c")
    case True
    then have "c \<notin> set cs" using Cons.prems(1) by simp
    then have "select_cells (\<lambda>x. x = c) cs vs = []"
      by (auto simp: select_cells_def filter_empty_conv dest: set_zip_leftD)
    with True r show ?thesis by (simp add: select_cells_Cons)
  next
    case False
    with Cons r show ?thesis by (simp add: select_cells_Cons)
  qed
qed

lemma filter_eq_single:
  "distinct xs \<Longrightarrow> x \<in> set xs \<Longrightarrow> [y \<leftarrow> xs. y = x] = [x]"
  by (induction xs) (auto simp: filter_empty_conv)

lemma map_of_rev_distinct:
  "distinct (map fst xs) \<Longrightarrow> map_of (rev xs) = map_of xs"
  by (rule map_of_inject_set[THEN iffD2]) (auto simp: rev_map[symmetric])

lemma map_of_zip_map_inj:
  "inj_on f (insert x (set xs)) \<Longrightarrow> map_of (zip (map f xs) ys) (f x) = map_of (zip xs ys) x"
proof (induction xs arbitrary: ys)
  case Nil
  then show ?case by simp
next
  case (Cons a xs)
  have inj: "inj_on f (insert x (set xs))"
    using Cons.prems by (auto simp: inj_on_def)
  have eq: "f a = f x \<longleftrightarrow> a = x"
    using Cons.prems by (auto simp: inj_on_def)
  show ?case
  proof (cases ys)
    case Nil
    then show ?thesis by simp
  next
    case (Cons y ys')
    with Cons.IH[OF inj] eq show ?thesis by auto
  qed
qed

lemma map_of_zip_select:
  "length r = length cols \<Longrightarrow> P c \<Longrightarrow>
   map_of (zip (filter P cols) (select_cells P cols r)) c = map_of (zip cols r) c"
proof -
  assume len: "length r = length cols" and c: "P c"
  have "filter (\<lambda>(c, v). P c) (zip cols r) = filter (\<lambda>x. P (fst x)) (zip cols r)"
    by (simp add: case_prod_beta')
  then have "map_of (zip (filter P cols) (select_cells P cols r))
      = map_of (zip cols r) |` Collect P"
    by (simp only: zip_filter_select[OF len] map_of_filter)
  then show ?thesis
    using c by simp
qed

lemma keep_columns_pairs:
  "keep_columns groups = map fst ((TARGET_COLUMN, TARGET_RENAMED) # column_pairs groups)"
  by (simp add: keep_columns_def)

lemma ordered_columns_pairs:
  "ordered_columns groups = map snd ((TARGET_COLUMN, TARGET_RENAMED) # column_pairs groups)"
  by (simp add: ordered_columns_def)

lemma rename_pair:
  assumes "distinct (keep_columns groups)"
    and "(s, t) \<in> set ((TARGET_COLUMN, TARGET_RENAMED) # column_pairs groups)"
  shows "rename_label (rename_map groups) s = t"
proof -
  let ?ps = "(TARGET_COLUMN, TARGET_RENAMED) # column_pairs groups"
  have d: "distinct (map fst ?ps)"
    using assms(1) by (simp add: keep_columns_def)
  then have "map_of (rev ?ps) = map_of ?ps"
    by (rule map_of_rev_distinct)
  moreover have "map_of ?ps s = Some t"
    using d assms(2) by (rule map_of_is_SomeI)
  ultimately show ?thesis
    by (simp add: rename_label_def rename_map_def)
qed

lemma map_rename_keep:
  assumes "distinct (keep_columns groups)"
  shows "map (rename_label (rename_map groups)) (keep_columns groups) = ordered_columns groups"
proof -
  let ?ps = "(TARGET_COLUMN, TARGET_RENAMED) # column_pairs groups"
  have "map (rename_label (rename_map groups)) (map fst ?ps) = map snd ?ps"
    unfolding map_map
    by (rule map_cong[OF refl]) (use rename_pair[OF assms] in auto)
  then show ?thesis
    by (simp only: keep_columns_pairs ordered_columns_pairs)
qed

lemma rename_inj:
  assumes "distinct (keep_columns groups)" and "distinct (ordered_columns groups)"
  shows "inj_on (rename_label (rename_map groups)) (set (keep_columns groups))"
  using assms(2) unfolding map_rename_keep[OF assms(1), symmetric] by (simp add: distinct_map)


lemma validate_columns_ok:
  "set expected \<subseteq> set available \<Longrightarrow> validate_columns expected available = Inr ()"
  by (auto simp: validate_columns_def filter_empty_conv)

lemma length_keep_columns:
  "length (keep_columns groups) = Suc 0 \<longleftrightarrow> column_pairs groups = []"
  by (simp add: keep_columns_def)

lemma build_dataset_ok:
  assumes sel: "select_source_file fs = Inr source" and src: "fs source = Some (Dataset content)"
    and wf: "wf_frame content" and dc: "distinct (columns content)"
    and sub: "set (keep_columns groups) \<subseteq> set (columns content)"
    and ne: "column_pairs groups \<noteq> []"
    and dk: "distinct (keep_columns groups)" and dl: "distinct (ordered_columns groups)"
  shows "build_dataset groups fs =
     Inr \<lparr>columns = ordered_columns groups,
          rows = map (\<lambda>r. map (\<lambda>s. the (row_dict (columns content) r s)) (keep_columns groups))
                   (rows content)\<rparr>"
proof -
  let ?K = "keep_columns groups" and ?L = "ordered_columns groups"
  let ?rn = "rename_label (rename_map groups)"
  let ?cols = "columns content"
  let ?P = "\<lambda>col. col \<in> set ?K"
  define cols1 where "cols1 = filter ?P ?cols"
  define cols2 where "cols2 = map ?rn cols1"
  have LK: "?L = map ?rn ?K"
    using map_rename_keep[OF dk] by simp
  have set1: "set cols1 = set ?K"
    using sub by (auto simp: cols1_def)
  have d1: "distinct cols1"
    using dc by (simp add: cols1_def)
  have inj: "inj_on ?rn (set cols1)"
    unfolding set1 using dk dl by (rule rename_inj)
  have d2: "distinct cols2"
    using d1 inj by (simp add: cols2_def distinct_map)
  have set2: "set cols2 = set ?L"
    by (simp add: cols2_def LK set1)
  have frame: "read_csv_usecols ?P content
      = \<lparr>columns = cols1, rows = map (select_cells ?P ?cols) (rows content)\<rparr>"
    by (simp add: read_csv_usecols_def cols1_def)
  have valid: "validate_columns ?K cols1 = Inr ()"
    by (rule validate_columns_ok) (simp add: set1)
  have colsL: "concat (map (\<lambda>l. [c \<leftarrow> cols2. c = l]) ?L) = ?L"
  proof -
    have eq: "map (\<lambda>l. [c \<leftarrow> cols2. c = l]) ?L = map (\<lambda>l. [l]) ?L"
      by (rule map_cong[OF refl]) (use d2 set2 in \<open>simp add: filter_eq_single\<close>)
    show ?thesis unfolding eq by simp
  qed
  have row: "concat (map (\<lambda>l. select_cells (\<lambda>c. c = l) cols2 (select_cells ?P ?cols r)) ?L)
      = map (\<lambda>s. the (row_dict ?cols r s)) ?K" if r: "r \<in> set (rows content)" for r
  proof -
    define r1 where "r1 = select_cells ?P ?cols r"
    have len: "length r = length ?cols"
      using wf r by (simp add: wf_frame_def list_all_iff)
    have len1: "length r1 = length cols2"
      using len by (simp add: r1_def cols2_def cols1_def length_select_cells)
    have cell: "select_cells (\<lambda>c. c = ?rn s) cols2 r1 = [the (row_dict ?cols r s)]"
      if s: "s \<in> set ?K" for s
    proof -
      have "?rn s \<in> set cols2"
        using s by (simp add: set2 LK)
      with select_cells_single[OF d2 len1] obtain v
        where v: "map_of (zip cols2 r1) (?rn s) = Some v"
          "select_cells (\<lambda>c. c = ?rn s) cols2 r1 = [v]"
        by blast
      have "inj_on ?rn (insert s (set cols1))"
        using inj s set1 by (simp add: insert_absorb)
      then have "map_of (zip cols2 r1) (?rn s) = map_of (zip cols1 r1) s"
        unfolding cols2_def by (rule map_of_zip_map_inj)
      also have "\<dots> = map_of (zip ?cols r) s"
        unfolding cols1_def r1_def using len s by (rule map_of_zip_select)
      finally have "map_of (zip ?cols r) s = Some v"
        using v(1) by simp
      then show ?thesis
        using v(2) by (simp add: row_dict_def)
    qed
    have eq: "map (\<lambda>l. select_cells (\<lambda>c. c = l) cols2 r1) (map ?rn ?K)
        = map (\<lambda>s. [the (row_dict ?cols r s)]) ?K"
      unfolding map_map by (rule map_cong[OF refl]) (simp add: cell)
    show ?thesis
      unfolding LK r1_def[symmetric] eq by simp
  qed
  have nf: "[l \<leftarrow> ?L. l \<notin> set cols2] = []"
    by (simp add: set2 filter_empty_conv)
  have "getitem_columns ?L (rename_columns (rename_map groups) (read_csv_usecols ?P content))
      = Inr \<lparr>columns = ?L, rows = map (\<lambda>r. map (\<lambda>s. the (row_dict ?cols r s)) ?K) (rows content)\<rparr>"
    unfolding frame
    by (simp add: getitem_columns_def rename_columns_def cols2_def[symmetric] nf colsL row)
  then show ?thesis
    using sel src ne valid by (simp add: build_dataset_def length_keep_columns frame)
qed

lemma path_name_filterVAR [simp]:
  "path_name filterVAR_OUTPUT_FILE = ''lifesat_sdt_subset.csv''"
  "path_name DEFAULT_SOURCE = ''Q1_Q260_filtered_30%row_and_column_no_R.csv''"
  "path_name FALLBACK_SOURCE = ''Q1_Q260_filtered_30%row_and_column.csv''"
  by (simp_all add: path_name_def filterVAR_OUTPUT_FILE_def DEFAULT_SOURCE_def FALLBACK_SOURCE_def)

lemma row_dict_built:
  assumes dk: "distinct (keep_columns groups)" and dl: "distinct (ordered_columns groups)"
    and p: "(s, t) \<in> set ((TARGET_COLUMN, TARGET_RENAMED) # column_pairs groups)"
    and s: "s \<in> set cols" and len: "length r = length cols"
  shows "row_dict (ordered_columns groups)
           (map (\<lambda>s. the (row_dict cols r s)) (keep_columns groups)) t
         = row_dict cols r s \<and> row_dict cols r s \<noteq> None"
proof -
  let ?K = "keep_columns groups" and ?rn = "rename_label (rename_map groups)"
  let ?h = "\<lambda>s. the (row_dict cols r s)"
  have sK: "s \<in> set ?K"
    using p unfolding keep_columns_pairs by (metis list.set_map fst_conv imageI)
  have t: "?rn s = t"
    using dk p by (rule rename_pair)
  obtain v where v: "row_dict cols r s = Some v"
    using s len by (metis map_of_zip_is_Some row_dict_def)
  have "inj_on ?rn (insert s (set ?K))"
    using rename_inj[OF dk dl] sK by (simp add: insert_absorb)
  then have "map_of (zip (map ?rn ?K) (map ?h ?K)) (?rn s) = map_of (zip ?K (map ?h ?K)) s"
    by (rule map_of_zip_map_inj)
  also have "\<dots> = Some (?h s)"
    using sK by (simp add: map_of_zip_map)
  finally show ?thesis
    using v t by (simp add: row_dict_def map_rename_keep[OF dk])
qed

text \<open>
  Claim C2 (Feature Subsetter correctness). Let the table of groups declare at least one
  predictor, with source identifiers that differ from each other and from \<open>Q49\<close>, and
  with new names that differ from each other and from \<open>LifeSat\<close>; let the selected source
  be rectangular, with distinct column labels, and hold every required column. Then
  \<^verbatim>\<open>main\<close> returns 0 and writes a dataset whose column list is \<open>LifeSat\<close> followed by the
  new names of the predictors in the order of their declaration (whatever the order of the
  columns in the file), with as many rows as the source, and in which the cell of a row
  under a new name is the cell of the same row of the source under the identifier it
  renames.
\<close>

theorem feature_subsetter_correct:
  assumes "select_source_file fs = Inr source" and "fs source = Some (Dataset content)"
    and "wf_frame content" and "distinct (columns content)"
    and "set (keep_columns groups) \<subseteq> set (columns content)"
    and "column_pairs groups \<noteq> []"
    and "distinct (keep_columns groups)" and "distinct (ordered_columns groups)"
  shows "\<exists>out.
      filterVAR_main groups fs =
        \<lparr>status = Exit 0,
         stdout = [''Saved SDT subset with '' @ str_nat (length (rows content))
                   @ '' rows to lifesat_sdt_subset.csv.''],
         stderr = [],
         files = fs(filterVAR_OUTPUT_FILE \<mapsto> Dataset out)\<rparr>
    \<and> columns out = ''LifeSat'' # map snd (column_pairs groups)
    \<and> length (rows out) = length (rows content)
    \<and> (\<forall>i < length (rows content).
          \<forall>(s, t) \<in> set ((''Q49'', ''LifeSat'') # column_pairs groups).
            row_dict (columns out) (rows out ! i) t
              = row_dict (columns content) (rows content ! i) s
            \<and> row_dict (columns content) (rows content ! i) s \<noteq> None)"
proof -
  let ?K = "keep_columns groups"
  let ?out = "\<lparr>columns = ordered_columns groups,
       rows = map (\<lambda>r. map (\<lambda>s. the (row_dict (columns content) r s)) ?K) (rows content)\<rparr>"
  have built: "build_dataset groups fs = Inr ?out"
    using assms by (rule build_dataset_ok)
  have main: "filterVAR_main groups fs =
        \<lparr>status = Exit 0,
         stdout = [''Saved SDT subset with '' @ str_nat (length (rows content))
                   @ '' rows to lifesat_sdt_subset.csv.''],
         stderr = [],
         files = fs(filterVAR_OUTPUT_FILE \<mapsto> Dataset ?out)\<rparr>"
    by (simp add: filterVAR_main_def built to_csv_def)
  have cols: "columns ?out = ''LifeSat'' # map snd (column_pairs groups)"
    by (simp add: ordered_columns_def TARGET_RENAMED_def)
  have cells: "row_dict (columns ?out) (rows ?out ! i) t
        = row_dict (columns content) (rows content ! i) s
      \<and> row_dict (columns content) (rows content ! i) s \<noteq> None"
    if i: "i < length (rows content)"
      and p: "(s, t) \<in> set ((''Q49'', ''LifeSat'') # column_pairs groups)" for i s t
  proof -
    have p': "(s, t) \<in> set ((TARGET_COLUMN, TARGET_RENAMED) # column_pairs groups)"
      using p by (simp add: TARGET_COLUMN_def TARGET_RENAMED_def)
    then have "s \<in> set ?K"
      unfolding keep_columns_pairs by (metis list.set_map fst_conv imageI)
    then have s: "s \<in> set (columns content)"
      using assms(5) by blast
    have len: "length (rows content ! i) = length (columns content)"
      using assms(3) i by (simp add: wf_frame_def list_all_length)
    from row_dict_built[OF assms(7,8) p' s len] show ?thesis
      using i by simp
  qed
  from main cols cells show ?thesis
    by (intro exI[of _ ?out]) auto
qed

lemma COLUMN_GROUPS_pairs:
  "column_pairs COLUMN_GROUPS \<noteq> []"
  "distinct (keep_columns COLUMN_GROUPS)"
  "distinct (ordered_columns COLUMN_GROUPS)"
  by (simp_all add: keep_columns_def ordered_columns_def column_pairs_def COLUMN_GROUPS_def
      TARGET_COLUMN_def TARGET_RENAMED_def)

lemma example_wvs_ok:
  "select_source_file example_wvs_files = Inr FALLBACK_SOURCE"
  "example_wvs_files FALLBACK_SOURCE = Some (Dataset example_wvs)"
  "wf_frame example_wvs"
  "distinct (columns example_wvs)"
  "set (keep_columns COLUMN_GROUPS) \<subseteq> set (columns example_wvs)"
  by (simp_all add: select_source_file_def example_wvs_files_def DEFAULT_SOURCE_def
      FALLBACK_SOURCE_def wf_frame_def example_wvs_def keep_columns_def column_pairs_def
      COLUMN_GROUPS_def TARGET_COLUMN_def)

theorem feature_subsetter_correct_witness:
  "select_source_file example_wvs_files = Inr FALLBACK_SOURCE
   \<and> example_wvs_files FALLBACK_SOURCE = Some (Dataset example_wvs)
   \<and> wf_frame example_wvs \<and> distinct (columns example_wvs)
   \<and> list_all (\<lambda>c. c \<in> set (columns example_wvs)) (keep_columns COLUMN_GROUPS)
   \<and> column_pairs COLUMN_GROUPS \<noteq> []
   \<and> distinct (keep_columns COLUMN_GROUPS) \<and> distinct (ordered_columns COLUMN_GROUPS)
   \<and> (\<exists>out.
        filterVAR_main COLUMN_GROUPS example_wvs_files =
          \<lparr>status = Exit 0,
           stdout = [''Saved SDT subset with 2 rows to lifesat_sdt_subset.csv.''],
           stderr = [],
           files = example_wvs_files(filterVAR_OUTPUT_FILE \<mapsto> Dataset out)\<rparr>
      \<and> take 4 (columns out) = [''LifeSat'', ''SHealth'', ''FinSat'', ''FinSat_ComParent'']
      \<and> length (columns out) = 41
      \<and> length (rows out) = 2
      \<and> row_dict (columns out) (rows out ! 0) ''LifeSat'' = Some 7
      \<and> row_dict (columns out) (rows out ! 0) ''SHealth'' = Some 3)"
proof -
  note h = example_wvs_ok COLUMN_GROUPS_pairs
  from feature_subsetter_correct[of example_wvs_files FALLBACK_SOURCE example_wvs COLUMN_GROUPS,
      OF h]
  obtain out where out:
    "filterVAR_main COLUMN_GROUPS example_wvs_files =
        \<lparr>status = Exit 0,
         stdout = [''Saved SDT subset with '' @ str_nat (length (rows example_wvs))
                   @ '' rows to lifesat_sdt_subset.csv.''],
         stderr = [],
         files = example_wvs_files(filterVAR_OUTPUT_FILE \<mapsto> Dataset out)\<rparr>"
    "columns out = ''LifeSat'' # map snd (column_pairs COLUMN_GROUPS)"
    "length (rows out) = length (rows example_wvs)"
    "\<forall>i < length (rows example_wvs).
          \<forall>(s, t) \<in> set ((''Q49'', ''LifeSat'') # column_pairs COLUMN_GROUPS).
            row_dict (columns out) (rows out ! i) t
              = row_dict (columns example_wvs) (rows example_wvs ! i) s
            \<and> row_dict (columns example_wvs) (rows example_wvs ! i) s \<noteq> None"
    by blast
  have n: "length (rows example_wvs) = 2"
    by (simp add: example_wvs_def)
  have msg: "''Saved SDT subset with '' @ str_nat 2 @ '' rows to lifesat_sdt_subset.csv.''
      = ''Saved SDT subset with 2 rows to lifesat_sdt_subset.csv.''"
    by (simp add: str_nat.simps digit_char_def)
  have c4: "take 4 (columns out) = [''LifeSat'', ''SHealth'', ''FinSat'', ''FinSat_ComParent'']"
    and c41: "length (columns out) = 41"
    by (simp_all add: out(2) column_pairs_def COLUMN_GROUPS_def)
  have p1: "(''Q49'', ''LifeSat'') \<in> set ((''Q49'', ''LifeSat'') # column_pairs COLUMN_GROUPS)"
    and p2: "(''Q47'', ''SHealth'') \<in> set ((''Q49'', ''LifeSat'') # column_pairs COLUMN_GROUPS)"
    by (simp_all add: column_pairs_def COLUMN_GROUPS_def)
  have v1: "row_dict (columns example_wvs) (rows example_wvs ! 0) ''Q49'' = Some 7"
    and v2: "row_dict (columns example_wvs) (rows example_wvs ! 0) ''Q47'' = Some 3"
    by (simp_all add: row_dict_def example_wvs_def)
  have "0 < length (rows example_wvs)"
    by (simp add: n)
  with out(4) p1 p2 have
    "row_dict (columns out) (rows out ! 0) ''LifeSat'' = Some 7"
    "row_dict (columns out) (rows out ! 0) ''SHealth'' = Some 3"
    unfolding v1[symmetric] v2[symmetric] by blast+
  with out(1,3) c4 c41 h show ?thesis
    unfolding n msg by (auto simp: list_all_iff)
qed

lemma validate_columns_missing:
  "\<not> set expected \<subseteq> set available \<Longrightarrow>
   validate_columns expected available =
     Inl (KeyError (''Missing columns in source CSV. Update the predictor lists or regenerate the input. Missing: ''
                    @ join '', '' (sort (remdups [c \<leftarrow> expected. c \<notin> set available]))))"
  by (auto simp: validate_columns_def filter_empty_conv)

lemma missing_after_usecols:
  "[c \<leftarrow> ks. c \<notin> set (filter (\<lambda>col. col \<in> set ks) cols)] = [c \<leftarrow> ks. c \<notin> set cols]"
  by (rule filter_cong) auto

text \<open>
  Claim C4 (missing columns). Let the table of groups declare at least one predictor, and
  let the selected source lack at least one required column. Then \<^verbatim>\<open>main\<close> returns 1,
  prints nothing on standard output, changes no file, and writes one line on standard
  error: the text of the \<^verbatim>\<open>KeyError\<close>, which ends with the sorted list of all the
  required identifiers that the source lacks, each once, separated by commas.
\<close>

theorem missing_columns_reported:
  assumes "select_source_file fs = Inr source" and "fs source = Some (Dataset content)"
    and "column_pairs groups \<noteq> []"
    and "\<not> set (keep_columns groups) \<subseteq> set (columns content)"
  shows "filterVAR_main groups fs =
      \<lparr>status = Exit 1, stdout = [],
       stderr = [''Error while constructing SDT feature set: ''
                 @ py_repr (''Missing columns in source CSV. Update the predictor lists or regenerate the input. Missing: ''
                     @ join '', '' (sort (remdups [c \<leftarrow> keep_columns groups. c \<notin> set (columns content)])))],
       files = fs\<rparr>
    \<and> set (sort (remdups [c \<leftarrow> keep_columns groups. c \<notin> set (columns content)]))
        = set (keep_columns groups) - set (columns content)
    \<and> sort (remdups [c \<leftarrow> keep_columns groups. c \<notin> set (columns content)]) \<noteq> []"
proof -
  let ?K = "keep_columns groups"
  let ?frame = "read_csv_usecols (\<lambda>col. col \<in> set ?K) content"
  have "\<not> set ?K \<subseteq> set (columns ?frame)"
    using assms(4) by (auto simp: read_csv_usecols_def)
  then have "validate_columns ?K (columns ?frame) =
     Inl (KeyError (''Missing columns in source CSV. Update the predictor lists or regenerate the input. Missing: ''
                    @ join '', '' (sort (remdups [c \<leftarrow> ?K. c \<notin> set (columns ?frame)]))))"
    by (rule validate_columns_missing)
  moreover have "[c \<leftarrow> ?K. c \<notin> set (columns ?frame)] = [c \<leftarrow> ?K. c \<notin> set (columns content)]"
    unfolding read_csv_usecols_def by (simp only: frame.simps missing_after_usecols)
  ultimately have "build_dataset groups fs =
     Inl (KeyError (''Missing columns in source CSV. Update the predictor lists or regenerate the input. Missing: ''
                    @ join '', '' (sort (remdups [c \<leftarrow> ?K. c \<notin> set (columns content)]))))"
    using assms(1,2,3) by (simp add: build_dataset_def length_keep_columns)
  then have main: "filterVAR_main groups fs =
      \<lparr>status = Exit 1, stdout = [],
       stderr = [''Error while constructing SDT feature set: ''
                 @ py_repr (''Missing columns in source CSV. Update the predictor lists or regenerate the input. Missing: ''
                     @ join '', '' (sort (remdups [c \<leftarrow> ?K. c \<notin> set (columns content)])))],
       files = fs\<rparr>"
    by (simp add: filterVAR_main_def)
  have all: "set (sort (remdups [c \<leftarrow> ?K. c \<notin> set (columns content)]))
      = set ?K - set (columns content)"
    by auto
  have "set ?K - set (columns content) \<noteq> {}"
    using assms(4) by blast
  with all have "sort (remdups [c \<leftarrow> ?K. c \<notin> set (columns content)]) \<noteq> []"
    by (metis set_empty)
  with main all show ?thesis
    by blast
qed

lemma example_short_ok:
  "select_source_file example_short_files = Inr DEFAULT_SOURCE"
  "example_short_files DEFAULT_SOURCE = Some (Dataset example_wvs_short)"
  by (simp_all add: select_source_file_def example_short_files_def)

lemma example_short_missing:
  "sort (remdups [c \<leftarrow> keep_columns COLUMN_GROUPS. c \<notin> set (columns example_wvs_short)])
     = [''Q47'', ''Q49'']"
  by (simp add: example_wvs_short_def drop_columns_def example_wvs_def keep_columns_def
      column_pairs_def COLUMN_GROUPS_def TARGET_COLUMN_def)

theorem missing_columns_reported_witness:
  "select_source_file example_short_files = Inr DEFAULT_SOURCE
   \<and> example_short_files DEFAULT_SOURCE = Some (Dataset example_wvs_short)
   \<and> column_pairs COLUMN_GROUPS \<noteq> []
   \<and> set (keep_columns COLUMN_GROUPS) - set (columns example_wvs_short) = {''Q47'', ''Q49''}
   \<and> filterVAR_main COLUMN_GROUPS example_short_files =
      \<lparr>status = Exit 1, stdout = [],
       stderr = [''Error while constructing SDT feature set: '' @ [CHR 0x27]
                 @ ''Missing columns in source CSV. Update the predictor lists or regenerate the input. Missing: Q47, Q49''
                 @ [CHR 0x27]],
       files = example_short_files\<rparr>"
proof -
  have h4: "\<not> set (keep_columns COLUMN_GROUPS) \<subseteq> set (columns example_wvs_short)"
    by (simp add: example_wvs_short_def drop_columns_def example_wvs_def keep_columns_def
        TARGET_COLUMN_def)
  have msg: "py_repr (''Missing columns in source CSV. Update the predictor lists or regenerate the input. Missing: ''
        @ join '', '' [''Q47'', ''Q49''])
      = [CHR 0x27]
        @ ''Missing columns in source CSV. Update the predictor lists or regenerate the input. Missing: Q47, Q49''
        @ [CHR 0x27]"
    by (simp add: py_repr_def repr_char_def Let_def)
  from missing_columns_reported[of example_short_files DEFAULT_SOURCE example_wvs_short
      COLUMN_GROUPS, OF example_short_ok COLUMN_GROUPS_pairs(1) h4]
  show ?thesis
    unfolding example_short_missing msg
    using example_short_ok COLUMN_GROUPS_pairs(1) by auto
qed

text \<open>
  Claim C8 (degenerate configuration). When the table of groups declares no predictor,
  \<^verbatim>\<open>main\<close> returns 1, prints nothing on standard output and changes no file. The error it
  reports is the request to populate \<^verbatim>\<open>COLUMN_GROUPS\<close> when one of the two candidate
  sources exists; when neither exists, the source is looked for first, and the error is
  the one of the missing input.
\<close>

theorem degenerate_configuration:
  assumes "column_pairs groups = []"
  shows "status (filterVAR_main groups fs) = Exit 1
    \<and> stdout (filterVAR_main groups fs) = []
    \<and> files (filterVAR_main groups fs) = fs
    \<and> stderr (filterVAR_main groups fs) =
        [''Error while constructing SDT feature set: ''
         @ (if fs DEFAULT_SOURCE = None \<and> fs FALLBACK_SOURCE = None
            then ''Neither filtered nor raw WVS CSV found. Looked for Q1_Q260_filtered_30%row_and_column_no_R.csv and Q1_Q260_filtered_30%row_and_column.csv.''
            else ''Populate COLUMN_GROUPS before running the script.'')]"
proof (cases "fs DEFAULT_SOURCE = None \<and> fs FALLBACK_SOURCE = None")
  case True
  then have "build_dataset groups fs =
      Inl (FileNotFoundError ''Neither filtered nor raw WVS CSV found. Looked for Q1_Q260_filtered_30%row_and_column_no_R.csv and Q1_Q260_filtered_30%row_and_column.csv.'')"
    by (simp add: build_dataset_def select_source_file_def)
  with True show ?thesis
    by (simp add: filterVAR_main_def)
next
  case False
  then have "\<exists>source. select_source_file fs = Inr source"
    by (cases "fs DEFAULT_SOURCE"; cases "fs FALLBACK_SOURCE")
       (simp_all add: select_source_file_def)
  then obtain source where "select_source_file fs = Inr source"
    by blast
  then have "build_dataset groups fs =
      Inl (ValueError ''Populate COLUMN_GROUPS before running the script.'')"
    using assms by (simp add: build_dataset_def length_keep_columns)
  with False show ?thesis
    by (simp add: filterVAR_main_def)
qed

theorem degenerate_configuration_witness:
  "column_pairs example_empty_groups = []
   \<and> filterVAR_main example_empty_groups example_wvs_files =
      \<lparr>status = Exit 1, stdout = [],
       stderr = [''Error while constructing SDT feature set: Populate COLUMN_GROUPS before running the script.''],
       files = example_wvs_files\<rparr>
   \<and> keep_columns example_empty_groups = [''Q49'']"
proof -
  have h: "column_pairs example_empty_groups = []"
    by (simp add: column_pairs_def example_empty_groups_def)
  have src: "example_wvs_files FALLBACK_SOURCE \<noteq> None"
    by (simp add: example_wvs_files_def)
  have eq: "r = \<lparr>status = status r, stdout = stdout r, stderr = stderr r, files = files r\<rparr>"
    for r :: "int run"
    by simp
  from degenerate_configuration[OF h, of example_wvs_files] src h
  show ?thesis
    by (subst eq) (simp add: keep_columns_def TARGET_COLUMN_def)
qed

section \<open>Properties of the Transaction Flattener\<close>

lemma split_on_nonempty: "split_on sep s \<noteq> []"
  by (induction s) (auto split: list.splits)

lemma split_on_no_sep: "sep \<notin> set s \<Longrightarrow> split_on sep s = [s]"
  by (induction s) auto

lemma split_on_append:
  "sep \<notin> set a \<Longrightarrow> split_on sep (a @ sep # b) = a # split_on sep b"
  by (induction a) auto

lemma digitpart_ok_no_slash: "digitpart_ok s \<Longrightarrow> CHR ''/'' \<notin> set s"
  by (induction s rule: digitpart_ok.induct) (auto simp: is_digit_def split: if_splits)

lemma takeWhile_dropWhile_hd:
  "dropWhile P s \<noteq> [] \<Longrightarrow> s = takeWhile P s @ hd (dropWhile P s) # tl (dropWhile P s)"
  by (metis takeWhile_dropWhile_id list.collapse)

lemma parse_number_no_slash:
  assumes "parse_number s = Some v"
  shows "CHR ''/'' \<notin> set s"
proof -
  let ?P = "\<lambda>c. c \<noteq> CHR ''.''"
  show ?thesis
  proof (cases "dropWhile ?P s = []")
    case True
    then have "takeWhile ?P s = s"
      by (metis takeWhile_dropWhile_id append_Nil2)
    with True assms show ?thesis
      by (auto simp: parse_number_def Let_def split: if_splits dest: digitpart_ok_no_slash)
  next
    case False
    then have "\<not> ?P (hd (dropWhile ?P s))"
      by (rule hd_dropWhile)
    then have hd: "hd (dropWhile ?P s) = CHR ''.''"
      by simp
    have ip: "CHR ''/'' \<notin> set (takeWhile ?P s)"
      using assms False
      by (auto simp: parse_number_def Let_def split: if_splits dest: digitpart_ok_no_slash)
    have fp: "CHR ''/'' \<notin> set (tl (dropWhile ?P s))"
      using assms False
      by (auto simp: parse_number_def Let_def split: if_splits dest: digitpart_ok_no_slash)
    have "set s = set (takeWhile ?P s) \<union> {CHR ''.''} \<union> set (tl (dropWhile ?P s))"
      using takeWhile_dropWhile_hd[OF False] hd
      by (metis list.simps(15) set_append Un_assoc insert_is_Un)
    with ip fp show ?thesis
      by simp
  qed
qed

lemma parse_exponent_no_slash:
  "parse_exponent s = Some e \<Longrightarrow> CHR ''/'' \<notin> set s"
  by (cases s) (auto simp: parse_exponent_def split: if_splits dest: digitpart_ok_no_slash)

lemma parse_finite_no_slash:
  assumes "parse_finite s = Some v"
  shows "CHR ''/'' \<notin> set s"
proof -
  let ?P = "\<lambda>c. c \<noteq> CHR ''e'' \<and> c \<noteq> CHR ''E''"
  have m: "CHR ''/'' \<notin> set (takeWhile ?P s)"
    using assms
    by (auto simp: parse_finite_def Let_def split: option.splits dest: parse_number_no_slash)
  show ?thesis
  proof (cases "dropWhile ?P s = []")
    case True
    then have "takeWhile ?P s = s"
      by (metis takeWhile_dropWhile_id append_Nil2)
    with m show ?thesis by simp
  next
    case False
    then have "\<not> ?P (hd (dropWhile ?P s))"
      by (rule hd_dropWhile)
    then have hd: "hd (dropWhile ?P s) \<noteq> CHR ''/''"
      by auto
    have "CHR ''/'' \<notin> set (tl (dropWhile ?P s))"
      using assms False
      by (auto simp: parse_finite_def Let_def split: option.splits if_splits
          dest: parse_exponent_no_slash)
    moreover have "set s = set (takeWhile ?P s) \<union> {hd (dropWhile ?P s)}
        \<union> set (tl (dropWhile ?P s))"
      using takeWhile_dropWhile_hd[OF False]
      by (metis list.simps(15) set_append Un_assoc insert_is_Un)
    ultimately show ?thesis
      using m hd by auto
  qed
qed

lemma dropWhile_keeps: "x \<in> set xs \<Longrightarrow> \<not> P x \<Longrightarrow> x \<in> set (dropWhile P xs)"
  by (induction xs) auto

lemma strip_keeps_slash: "CHR ''/'' \<in> set s \<Longrightarrow> CHR ''/'' \<in> set (strip s)"
proof -
  assume a: "CHR ''/'' \<in> set s"
  have ns: "\<not> is_space CHR ''/''"
    by (simp add: is_space_def)
  from a ns have "CHR ''/'' \<in> set (dropWhile is_space s)"
    by (rule dropWhile_keeps)
  then have "CHR ''/'' \<in> set (rev (dropWhile is_space s))"
    by simp
  then have "CHR ''/'' \<in> set (dropWhile is_space (rev (dropWhile is_space s)))"
    using ns by (rule dropWhile_keeps)
  then show ?thesis
    by (simp add: strip_def)
qed

lemma lower_slash: "CHR ''/'' \<in> set s \<Longrightarrow> CHR ''/'' \<in> set (map lower s)"
proof -
  have "lower CHR ''/'' = CHR ''/''"
    by (simp add: lower_def)
  then show "CHR ''/'' \<in> set s \<Longrightarrow> CHR ''/'' \<in> set (map lower s)"
    by (metis image_eqI list.set_map)
qed

lemma float_of_string_no_slash:
  assumes "float_of_string s = Inr f"
  shows "CHR ''/'' \<notin> set s"
proof
  assume "CHR ''/'' \<in> set s"
  then have t: "CHR ''/'' \<in> set (strip s)"
    by (rule strip_keeps_slash)
  define body where
    "body = (if strip s \<noteq> [] \<and> (hd (strip s) = CHR ''-'' \<or> hd (strip s) = CHR ''+'')
             then tl (strip s) else strip s)"
  have b: "CHR ''/'' \<in> set body"
    using t unfolding body_def by (cases "strip s") auto
  then have low: "CHR ''/'' \<in> set (map lower body)"
    by (rule lower_slash)
  then have not_word: "map lower body \<noteq> ''inf''" "map lower body \<noteq> ''infinity''"
    "map lower body \<noteq> ''nan''"
    by auto
  have "parse_finite body = None"
    using b parse_finite_no_slash by (cases "parse_finite body") auto
  with not_word have "\<exists>e. float_of_string s = Inl e"
    by (simp add: float_of_string_def Let_def body_def[symmetric])
  with assms show False
    by auto
qed

lemma series_apply_Inr:
  "series_apply f xs = Inr ys \<Longrightarrow>
   length ys = length xs \<and> (\<forall>i < length xs. f (xs ! i) = Inr (ys ! i))"
proof (induction xs arbitrary: ys)
  case Nil
  then show ?case by simp
next
  case (Cons x xs)
  from Cons.prems obtain y ys' where y: "f x = Inr y" "series_apply f xs = Inr ys'" "ys = y # ys'"
    by (auto split: sum.splits)
  from Cons.IH[OF y(2)] y(1,3) show ?case
    by (auto simp: nth_Cons split: nat.splits)
qed

lemma map_of_set_column: "map_of (set_column c vs df) = (map_of df)(c \<mapsto> vs)"
  by (induction df) (auto simp: fun_eq_iff)

lemma assign_applied_Inr:
  assumes "assign_applied (t, s, f) df = Inr df'"
  shows "\<exists>col vs. map_of df s = Some col \<and> series_apply f col = Inr vs
           \<and> map_of df' = (map_of df)(t \<mapsto> vs)"
  using assms
  by (auto simp: assign_applied_def get_column_def map_of_set_column split: option.splits sum.splits)

lemma run_statements_keeps:
  "run_statements steps df = Inr df' \<Longrightarrow> c \<notin> set (map fst steps) \<Longrightarrow>
   map_of df' c = map_of df c"
proof (induction steps arbitrary: df)
  case Nil
  then show ?case by simp
next
  case (Cons step rest)
  obtain t s f where step: "step = (t, s, f)"
    by (cases step) auto
  from Cons.prems(1) obtain d where d: "assign_applied (t, s, f) df = Inr d"
      "run_statements rest d = Inr df'"
    by (auto simp: step split: sum.splits)
  from assign_applied_Inr[OF d(1)] obtain vs where "map_of d = (map_of df)(t \<mapsto> vs)"
    by blast
  moreover have "c \<noteq> t"
    using Cons.prems(2) by (simp add: step)
  moreover have "map_of df' c = map_of d c"
    using d(2) Cons.prems(2) by (intro Cons.IH) auto
  ultimately show ?case
    by simp
qed

lemma run_statements_columns:
  "run_statements steps df = Inr df' \<Longrightarrow> independent steps \<Longrightarrow> (t, s, f) \<in> set steps \<Longrightarrow>
   \<exists>col vs. map_of df s = Some col \<and> series_apply f col = Inr vs \<and> map_of df' t = Some vs"
proof (induction steps arbitrary: df)
  case Nil
  then show ?case by simp
next
  case (Cons step rest)
  obtain t0 s0 f0 where step: "step = (t0, s0, f0)"
    by (cases step) auto
  from Cons.prems(1) obtain d where d: "assign_applied (t0, s0, f0) df = Inr d"
      "run_statements rest d = Inr df'"
    by (auto simp: step split: sum.splits)
  from assign_applied_Inr[OF d(1)] obtain col0 vs0 where a:
      "map_of df s0 = Some col0" "series_apply f0 col0 = Inr vs0"
      "map_of d = (map_of df)(t0 \<mapsto> vs0)"
    by blast
  have ind: "t0 \<notin> set (map fst rest)" "t0 \<notin> set (map (\<lambda>st. fst (snd st)) rest)"
      "independent rest"
    using Cons.prems(2) by (simp_all add: step)
  show ?case
  proof (cases "(t, s, f) = step")
    case True
    have "map_of df' t0 = map_of d t0"
      using d(2) ind(1) by (rule run_statements_keeps)
    with a True step show ?thesis
      by simp
  next
    case False
    then have mem: "(t, s, f) \<in> set rest"
      using Cons.prems(3) by simp
    from Cons.IH[OF d(2) ind(3) mem] obtain col vs where r:
        "map_of d s = Some col" "series_apply f col = Inr vs" "map_of df' t = Some vs"
      by blast
    have "s \<noteq> t0"
      using mem ind(2) by force
    with r a(3) show ?thesis
      by simp
  qed
qed

lemma statements_independent: "independent statements"
  by (simp add: statements_def)

lemma statements_cell:
  assumes "run_statements statements df = Inr df'" and "(t, s, f) \<in> set statements"
    and "map_of df s = Some col" and "i < length col"
  shows "\<exists>vs. map_of df' t = Some vs \<and> length vs = length col \<and> f (col ! i) = Inr (vs ! i)"
proof -
  from run_statements_columns[OF assms(1) statements_independent assms(2)] assms(3)
  obtain vs where "series_apply f col = Inr vs" "map_of df' t = Some vs"
    by auto
  with series_apply_Inr[of f col vs] assms(4) show ?thesis
    by auto
qed

lemma split_part_falsy: "\<not> truthy x \<Longrightarrow> split_part i x = Inr PNone"
  by (simp add: split_part_def)

lemma split_part_first:
  "CHR ''/'' \<notin> set a \<Longrightarrow>
   split_part 0 (PStr (a @ CHR ''/'' # b)) =
     (case float_of_string a of Inl e \<Rightarrow> Inl e | Inr f \<Rightarrow> Inr (PFloat f))"
  by (simp add: split_part_def py_split_def py_index_def split_on_append)

lemma split_part_second:
  "CHR ''/'' \<notin> set a \<Longrightarrow> CHR ''/'' \<notin> set b \<Longrightarrow>
   split_part (Suc 0) (PStr (a @ CHR ''/'' # b)) =
     (case float_of_string b of Inl e \<Rightarrow> Inl e | Inr f \<Rightarrow> Inr (PFloat f))"
  by (simp add: split_part_def py_split_def py_index_def split_on_append split_on_no_sep)

lemma split_part_None_iff: "split_part i x = Inr PNone \<longleftrightarrow> \<not> truthy x"
  by (auto simp: split_part_def split: sum.splits)

lemma to_float_or_none_None_iff: "to_float_or_none x = Inr PNone \<longleftrightarrow> \<not> truthy x"
  by (auto simp: to_float_or_none_def split: sum.splits)

lemma falsy_values:
  "\<not> truthy x \<longleftrightarrow> x \<in> {PNone, PBool False, PInt 0, PFloat (Finite 0), PStr [], PList []}"
  by (cases x) auto

lemmas float_eval = float_of_string_def strip_def is_space_def lower_def parse_finite_def
  parse_number_def parse_exponent_def is_digit_def digits_value_def digit_value_def
  py_repr_def repr_char_def Let_def

lemma float_of_string_examples:
  "float_of_string ''12.5'' = Inr (Finite (25 / 2))"
  "float_of_string ''34.2'' = Inr (Finite (171 / 5))"
  "float_of_string ''0'' = Inr (Finite 0)"
  "float_of_string ''abc''
     = Inl (ValueError (''could not convert string to float: '' @ [CHR 0x27] @ ''abc'' @ [CHR 0x27]))"
  by (simp_all add: float_eval)

text \<open>
  Claim C5 (values of a split compound field). For a cell \<open>a/b\<close> in which \<open>a\<close> and \<open>b\<close>
  are float literals, the before-slash lambda returns the float of \<open>a\<close> and the
  after-slash lambda the float of \<open>b\<close>; for \<^verbatim>\<open>None\<close> and for the empty string both return
  \<^verbatim>\<open>None\<close>. In a run of the script that reaches its end, this is what the two derived
  columns of either compound field hold in the row of such a cell.
\<close>

theorem compound_split_values:
  assumes "float_of_string a = Inr fa" and "float_of_string b = Inr fb"
  shows "split_part 0 (PStr (a @ ''/'' @ b)) = Inr (PFloat fa)
    \<and> split_part 1 (PStr (a @ ''/'' @ b)) = Inr (PFloat fb)
    \<and> split_part 0 PNone = Inr PNone \<and> split_part 1 PNone = Inr PNone
    \<and> split_part 0 (PStr []) = Inr PNone \<and> split_part 1 (PStr []) = Inr PNone
    \<and> (run_statements statements df = Inr df'
         \<and> (src, per_m, per_ft) \<in>
             {(''saleable_floor_area'', ''saleable_floor_area_per_sq_m'',
               ''saleable_floor_area_per_sq_ft''),
              (''transaction_price_per_sq'', ''transaction_price_per_sq_m'',
               ''transaction_price_per_sq_ft'')}
         \<and> map_of df src = Some col \<and> i < length col
       \<longrightarrow> (\<exists>ms fs. map_of df' per_m = Some ms \<and> map_of df' per_ft = Some fs
              \<and> (col ! i = PStr (a @ ''/'' @ b) \<longrightarrow> ms ! i = PFloat fa \<and> fs ! i = PFloat fb)
              \<and> (col ! i = PNone \<or> col ! i = PStr [] \<longrightarrow> ms ! i = PNone \<and> fs ! i = PNone)))"
proof -
  have na: "CHR ''/'' \<notin> set a" and nb: "CHR ''/'' \<notin> set b"
    using assms by (auto dest: float_of_string_no_slash)
  have first: "split_part 0 (PStr (a @ ''/'' @ b)) = Inr (PFloat fa)"
    using na assms(1) by (simp add: split_part_first)
  have second: "split_part 1 (PStr (a @ ''/'' @ b)) = Inr (PFloat fb)"
    using na nb assms(2) by (simp add: split_part_second)
  have null: "split_part k PNone = Inr PNone" "split_part k (PStr []) = Inr PNone" for k
    by (simp_all add: split_part_def)
  have script: "\<exists>ms fs. map_of df' per_m = Some ms \<and> map_of df' per_ft = Some fs
      \<and> (col ! i = PStr (a @ ''/'' @ b) \<longrightarrow> ms ! i = PFloat fa \<and> fs ! i = PFloat fb)
      \<and> (col ! i = PNone \<or> col ! i = PStr [] \<longrightarrow> ms ! i = PNone \<and> fs ! i = PNone)"
    if run: "run_statements statements df = Inr df'"
      and names: "(src, per_m, per_ft) \<in>
             {(''saleable_floor_area'', ''saleable_floor_area_per_sq_m'',
               ''saleable_floor_area_per_sq_ft''),
              (''transaction_price_per_sq'', ''transaction_price_per_sq_m'',
               ''transaction_price_per_sq_ft'')}"
      and col: "map_of df src = Some col" and i: "i < length col"
  proof -
    have m: "(per_m, src, split_part 0) \<in> set statements"
      and f: "(per_ft, src, split_part 1) \<in> set statements"
      using names by (auto simp: statements_def)
    from statements_cell[OF run m col i] obtain ms
      where ms: "map_of df' per_m = Some ms" "split_part 0 (col ! i) = Inr (ms ! i)"
      by blast
    from statements_cell[OF run f col i] obtain fs
      where fs: "map_of df' per_ft = Some fs" "split_part 1 (col ! i) = Inr (fs ! i)"
      by blast
    from ms fs first second null show ?thesis
      by auto
  qed
  from first second null script show ?thesis
    by blast
qed

lemmas script_eval = statements_def assign_applied_def get_column_def to_float_or_none_def
  split_part_def py_split_def py_index_def

lemma example_run: "run_statements statements example_transactions = Inr example_flattened"
  by (simp add: script_eval float_eval example_transactions_def example_flattened_def)

lemma example_malformed_run:
  "run_statements statements example_malformed
     = Inl (ValueError (''could not convert string to float: '' @ [CHR 0x27] @ ''abc'' @ [CHR 0x27]))"
  by (simp add: script_eval float_eval example_malformed_def)

theorem compound_split_values_witness:
  "float_of_string ''12.5'' = Inr (Finite (25 / 2))
   \<and> float_of_string ''34.2'' = Inr (Finite (171 / 5))
   \<and> split_part 0 (PStr ''12.5/34.2'') = Inr (PFloat (Finite (25 / 2)))
   \<and> split_part 1 (PStr ''12.5/34.2'') = Inr (PFloat (Finite (171 / 5)))
   \<and> run_statements statements example_transactions = Inr example_flattened
   \<and> map_of example_transactions ''saleable_floor_area''
       = Some [PStr ''12.5/34.2'', PStr '''', PStr ''500/5382'']
   \<and> (\<exists>ms fs. map_of example_flattened ''saleable_floor_area_per_sq_m'' = Some ms
         \<and> map_of example_flattened ''saleable_floor_area_per_sq_ft'' = Some fs
         \<and> ms ! 0 = PFloat (Finite (25 / 2)) \<and> fs ! 0 = PFloat (Finite (171 / 5)))"
proof -
  note h = float_of_string_examples(1,2)
  have col: "map_of example_transactions ''saleable_floor_area''
      = Some [PStr ''12.5/34.2'', PStr '''', PStr ''500/5382'']"
    by (simp add: example_transactions_def)
  from compound_split_values[OF h, of example_transactions example_flattened
      "''saleable_floor_area''" "''saleable_floor_area_per_sq_m''"
      "''saleable_floor_area_per_sq_ft''" "[PStr ''12.5/34.2'', PStr '''', PStr ''500/5382'']" 0]
    h example_run col
  show ?thesis
    by simp
qed

text \<open>
  Claim C10 (coercion of falsy values). The lambda of the four coerced fields returns
  \<^verbatim>\<open>None\<close> exactly when the value is falsy, and \<^verbatim>\<open>float\<close> of the value otherwise
  (an exception of \<^verbatim>\<open>float\<close> included). The falsy values are \<^verbatim>\<open>None\<close>, \<^verbatim>\<open>False\<close>, the
  numbers 0 and 0.0, the empty string and the empty list: a number 0 becomes \<^verbatim>\<open>None\<close>,
  the string \<open>0\<close> becomes 0.0. In a run of the script that reaches its end, each of the
  four columns holds, row by row, what the lambda returns for the cell it held.
\<close>

theorem falsy_coercion:
  "(to_float_or_none x = Inr PNone \<longleftrightarrow> \<not> truthy x)
   \<and> (truthy x \<longrightarrow>
        to_float_or_none x = (case py_float x of Inl e \<Rightarrow> Inl e | Inr f \<Rightarrow> Inr (PFloat f)))
   \<and> (\<not> truthy x \<longleftrightarrow>
        x \<in> {PNone, PBool False, PInt 0, PFloat (Finite 0), PStr [], PList []})
   \<and> to_float_or_none (PInt 0) = Inr PNone
   \<and> to_float_or_none (PFloat (Finite 0)) = Inr PNone
   \<and> to_float_or_none (PStr ''0'') = Inr (PFloat (Finite 0))
   \<and> (run_statements statements df = Inr df'
        \<and> field \<in> {''estate_map_latitude'', ''estate_map_longitude'', ''transaction_price'',
                    ''discount_rate''}
        \<and> map_of df field = Some col \<and> i < length col
      \<longrightarrow> (\<exists>vs. map_of df' field = Some vs \<and> length vs = length col
             \<and> to_float_or_none (col ! i) = Inr (vs ! i)
             \<and> (vs ! i = PNone \<longleftrightarrow> \<not> truthy (col ! i))))"
proof -
  have zero: "to_float_or_none (PStr ''0'') = Inr (PFloat (Finite 0))"
    by (simp add: to_float_or_none_def float_of_string_examples)
  have script: "\<exists>vs. map_of df' field = Some vs \<and> length vs = length col
      \<and> to_float_or_none (col ! i) = Inr (vs ! i)
      \<and> (vs ! i = PNone \<longleftrightarrow> \<not> truthy (col ! i))"
    if run: "run_statements statements df = Inr df'"
      and field: "field \<in> {''estate_map_latitude'', ''estate_map_longitude'',
          ''transaction_price'', ''discount_rate''}"
      and col: "map_of df field = Some col" and i: "i < length col"
  proof -
    have "(field, field, to_float_or_none) \<in> set statements"
      using field by (auto simp: statements_def)
    from statements_cell[OF run this col i] obtain vs where vs:
        "map_of df' field = Some vs" "length vs = length col"
        "to_float_or_none (col ! i) = Inr (vs ! i)"
      by blast
    from vs(3) have "vs ! i = PNone \<longleftrightarrow> \<not> truthy (col ! i)"
      using to_float_or_none_None_iff[of "col ! i"] by auto
    with vs show ?thesis
      by blast
  qed
  have lam: "truthy x \<longrightarrow>
      to_float_or_none x = (case py_float x of Inl e \<Rightarrow> Inl e | Inr f \<Rightarrow> Inr (PFloat f))"
    by (simp add: to_float_or_none_def)
  have z: "to_float_or_none (PInt 0) = Inr PNone" "to_float_or_none (PFloat (Finite 0)) = Inr PNone"
    by (simp_all add: to_float_or_none_def)
  show ?thesis
  proof (intro conjI)
    show "to_float_or_none x = Inr PNone \<longleftrightarrow> \<not> truthy x"
      by (rule to_float_or_none_None_iff)
    show "truthy x \<longrightarrow>
        to_float_or_none x = (case py_float x of Inl e \<Rightarrow> Inl e | Inr f \<Rightarrow> Inr (PFloat f))"
      by (rule lam)
    show "\<not> truthy x \<longleftrightarrow>
        x \<in> {PNone, PBool False, PInt 0, PFloat (Finite 0), PStr [], PList []}"
      by (rule falsy_values)
    show "to_float_or_none (PInt 0) = Inr PNone"
      by (rule z(1))
    show "to_float_or_none (PFloat (Finite 0)) = Inr PNone"
      by (rule z(2))
    show "to_float_or_none (PStr ''0'') = Inr (PFloat (Finite 0))"
      by (rule zero)
    show "run_statements statements df = Inr df'
        \<and> field \<in> {''estate_map_latitude'', ''estate_map_longitude'', ''transaction_price'',
                    ''discount_rate''}
        \<and> map_of df field = Some col \<and> i < length col
      \<longrightarrow> (\<exists>vs. map_of df' field = Some vs \<and> length vs = length col
             \<and> to_float_or_none (col ! i) = Inr (vs ! i)
             \<and> (vs ! i = PNone \<longleftrightarrow> \<not> truthy (col ! i)))"
      by (intro impI, elim conjE, rule script)
  qed
qed

theorem falsy_coercion_witness:
  "truthy (PStr ''0'') \<and> \<not> truthy (PInt 0)
   \<and> to_float_or_none (PStr ''0'') = Inr (PFloat (Finite 0))
   \<and> to_float_or_none (PInt 0) = Inr PNone
   \<and> run_statements statements example_transactions = Inr example_flattened
   \<and> map_of example_transactions ''discount_rate'' = Some [PStr ''-2'', PNone, PInt 0]
   \<and> (\<exists>vs. map_of example_flattened ''discount_rate'' = Some vs \<and> vs ! 2 = PNone
         \<and> vs ! 0 = PFloat (Finite (- 2)))"
proof -
  have col: "map_of example_transactions ''discount_rate'' = Some [PStr ''-2'', PNone, PInt 0]"
    by (simp add: example_transactions_def)
  have i: "2 < length [PStr ''-2'', PNone, PInt 0]"
    by simp
  have field: "''discount_rate'' \<in> {''estate_map_latitude'', ''estate_map_longitude'',
      ''transaction_price'', ''discount_rate''}"
    by simp
  note inst = falsy_coercion[of "PStr ''0''" example_transactions example_flattened
        "''discount_rate''" "[PStr ''-2'', PNone, PInt 0]" 2]
  have t: "truthy (PStr ''0'')" and f: "\<not> truthy (PInt 0)"
    by simp_all
  from inst have c1: "to_float_or_none (PStr ''0'') = Inr (PFloat (Finite 0))"
    and c2: "to_float_or_none (PInt 0) = Inr PNone"
    by blast+
  from inst example_run field col i obtain vs where vs:
      "map_of example_flattened ''discount_rate'' = Some vs"
      "to_float_or_none ([PStr ''-2'', PNone, PInt 0] ! 2) = Inr (vs ! 2)"
    by blast
  have b: "map_of example_flattened ''discount_rate'' = Some [PFloat (Finite (- 2)), PNone, PNone]"
    by (simp add: example_flattened_def)
  with vs(1) have "vs ! 2 = PNone" "vs ! 0 = PFloat (Finite (- 2))"
    by auto
  with vs(1) t f c1 c2 example_run col show ?thesis
    by blast
qed

text \<open>
  Claim C3 says that a compound cell that does not split into two numbers yields a null
  value without an error. The cell \<open>abc\<close> refutes it: the before-slash lambda raises
  \<^verbatim>\<open>ValueError\<close>, the after-slash lambda raises \<^verbatim>\<open>IndexError\<close>, neither returns
  \<^verbatim>\<open>None\<close>, and the script ends with the exception without writing a file.
\<close>

theorem malformed_compound_counterexample:
  "split_part 0 (PStr ''abc'')
     = Inl (ValueError (''could not convert string to float: '' @ [CHR 0x27] @ ''abc'' @ [CHR 0x27]))
   \<and> split_part 1 (PStr ''abc'') = Inl (IndexError ''list index out of range'')
   \<and> split_part 0 (PStr ''abc'') \<noteq> Inr PNone
   \<and> split_part 1 (PStr ''abc'') \<noteq> Inr PNone
   \<and> data_prep example_malformed
     = Inl (ValueError (''could not convert string to float: '' @ [CHR 0x27] @ ''abc'' @ [CHR 0x27]))"
  by (simp add: split_part_def py_split_def py_index_def float_of_string_examples
      data_prep_def example_malformed_run)

lemma split_part_no_slash:
  "s \<noteq> [] \<Longrightarrow> CHR ''/'' \<notin> set s \<Longrightarrow>
   split_part 0 (PStr s) = (case float_of_string s of Inl e \<Rightarrow> Inl e | Inr f \<Rightarrow> Inr (PFloat f))
   \<and> split_part (Suc 0) (PStr s) = Inl (IndexError ''list index out of range'')"
  by (simp add: split_part_def py_split_def py_index_def split_on_no_sep)

lemma statement_raises:
  assumes "(t, src, f) \<in> set statements" and "map_of df src = Some col" and "i < length col"
    and "f (col ! i) = Inl e"
  shows "\<exists>e'. data_prep df = Inl e'"
proof (cases "run_statements statements df")
  case (Inl e')
  then show ?thesis by (simp add: data_prep_def)
next
  case (Inr df')
  from statements_cell[OF Inr assms(1,2,3)] assms(4) show ?thesis
    by auto
qed

text \<open>
  Claim C3, amended (malformed compound field). The split lambdas return \<^verbatim>\<open>None\<close> exactly
  for a falsy cell. A string that is not empty and holds no slash is parsed whole for the
  before-slash column and raises \<^verbatim>\<open>IndexError\<close> for the after-slash column; a part that
  is not a float literal raises the \<^verbatim>\<open>ValueError\<close> of \<^verbatim>\<open>float\<close>. Nothing is resolved
  locally: when the lambda of a statement raises on a cell of its source column, the
  script ends with an exception and writes no file.
\<close>

theorem malformed_compound_raises:
  "(split_part k x = Inr PNone \<longleftrightarrow> \<not> truthy x)
   \<and> (s \<noteq> [] \<and> CHR ''/'' \<notin> set s \<longrightarrow>
        split_part 0 (PStr s)
          = (case float_of_string s of Inl e \<Rightarrow> Inl e | Inr f \<Rightarrow> Inr (PFloat f))
        \<and> split_part 1 (PStr s) = Inl (IndexError ''list index out of range''))
   \<and> (CHR ''/'' \<notin> set p \<and> float_of_string p = Inl e \<longrightarrow>
        split_part 0 (PStr (p @ ''/'' @ q)) = Inl e)
   \<and> (CHR ''/'' \<notin> set p \<and> CHR ''/'' \<notin> set q \<and> float_of_string q = Inl e \<longrightarrow>
        split_part 1 (PStr (p @ ''/'' @ q)) = Inl e)
   \<and> ((t, src, f) \<in> set statements \<and> map_of df src = Some col \<and> i < length col
        \<and> f (col ! i) = Inl e'
      \<longrightarrow> (\<exists>e''. data_prep df = Inl e''))"
proof (intro conjI)
  show "split_part k x = Inr PNone \<longleftrightarrow> \<not> truthy x"
    by (rule split_part_None_iff)
  show "s \<noteq> [] \<and> CHR ''/'' \<notin> set s \<longrightarrow>
        split_part 0 (PStr s)
          = (case float_of_string s of Inl e \<Rightarrow> Inl e | Inr f \<Rightarrow> Inr (PFloat f))
        \<and> split_part 1 (PStr s) = Inl (IndexError ''list index out of range'')"
    using split_part_no_slash[of s] by simp
  show "CHR ''/'' \<notin> set p \<and> float_of_string p = Inl e \<longrightarrow>
        split_part 0 (PStr (p @ ''/'' @ q)) = Inl e"
    by (simp add: split_part_first)
  show "CHR ''/'' \<notin> set p \<and> CHR ''/'' \<notin> set q \<and> float_of_string q = Inl e \<longrightarrow>
        split_part 1 (PStr (p @ ''/'' @ q)) = Inl e"
    by (simp add: split_part_second)
  show "(t, src, f) \<in> set statements \<and> map_of df src = Some col \<and> i < length col
        \<and> f (col ! i) = Inl e'
      \<longrightarrow> (\<exists>e''. data_prep df = Inl e'')"
    by (intro impI, elim conjE, rule statement_raises)
qed

theorem malformed_compound_raises_witness:
  "truthy (PStr ''abc'') \<and> ''abc'' \<noteq> [] \<and> CHR ''/'' \<notin> set ''abc''
   \<and> float_of_string ''abc''
       = Inl (ValueError (''could not convert string to float: '' @ [CHR 0x27] @ ''abc'' @ [CHR 0x27]))
   \<and> split_part 0 (PStr ''abc'') = Inl (ValueError (''could not convert string to float: '' @ [CHR 0x27] @ ''abc'' @ [CHR 0x27]))
   \<and> split_part 1 (PStr ''abc'') = Inl (IndexError ''list index out of range'')
   \<and> split_part 0 (PStr ''abc/5'') = Inl (ValueError (''could not convert string to float: '' @ [CHR 0x27] @ ''abc'' @ [CHR 0x27]))
   \<and> (''saleable_floor_area_per_sq_m'', ''saleable_floor_area'', split_part 0) \<in> set statements
   \<and> map_of example_malformed ''saleable_floor_area'' = Some [PStr ''abc'']
   \<and> (\<exists>e. data_prep example_malformed = Inl e)
   \<and> split_part 0 (PStr '''') = Inr PNone"
proof -
  note fl = float_of_string_examples(4)
  have h1: "truthy (PStr ''abc'')" "''abc'' \<noteq> []" "CHR ''/'' \<notin> set ''abc''"
    by simp_all
  have st: "(''saleable_floor_area_per_sq_m'', ''saleable_floor_area'', split_part 0)
      \<in> set statements"
    by (simp add: statements_def)
  have col: "map_of example_malformed ''saleable_floor_area'' = Some [PStr ''abc'']"
    by (simp add: example_malformed_def)
  note inst = malformed_compound_raises[of 0 "PStr ''''" "''abc''" "''abc''"
      "ValueError (''could not convert string to float: '' @ [CHR 0x27] @ ''abc'' @ [CHR 0x27])"
      "''5''" "''saleable_floor_area_per_sq_m''" "''saleable_floor_area''" "split_part 0"
      example_malformed "[PStr ''abc'']" 0
      "ValueError (''could not convert string to float: '' @ [CHR 0x27] @ ''abc'' @ [CHR 0x27])"]
  from inst h1 have a: "split_part 0 (PStr ''abc'')
        = (case float_of_string ''abc'' of Inl e \<Rightarrow> Inl e | Inr f \<Rightarrow> Inr (PFloat f))"
      and b: "split_part 1 (PStr ''abc'') = Inl (IndexError ''list index out of range'')"
    by blast+
  from a have a': "split_part 0 (PStr ''abc'') = Inl (ValueError (''could not convert string to float: '' @ [CHR 0x27] @ ''abc'' @ [CHR 0x27]))"
    by (simp only: fl sum.case)
  from inst h1(3) fl have c: "split_part 0 (PStr (''abc'' @ ''/'' @ ''5''))
      = Inl (ValueError (''could not convert string to float: '' @ [CHR 0x27] @ ''abc'' @ [CHR 0x27]))"
    by blast
  have c': "split_part 0 (PStr ''abc/5'') = Inl (ValueError (''could not convert string to float: '' @ [CHR 0x27] @ ''abc'' @ [CHR 0x27]))"
    using c by simp
  have cell: "split_part 0 ([PStr ''abc''] ! 0) = Inl (ValueError (''could not convert string to float: '' @ [CHR 0x27] @ ''abc'' @ [CHR 0x27]))"
    using a' by simp
  have len: "0 < length [PStr ''abc'']"
    by simp
  from inst st col len cell have d: "\<exists>e. data_prep example_malformed = Inl e"
    by blast
  have "\<not> truthy (PStr '''')"
    by simp
  with inst have n: "split_part 0 (PStr '''') = Inr PNone"
    by blast
  from h1 fl a' b c' st col d n show ?thesis
    by (intro conjI)
qed

end
